theory Spec2Isabelle
  imports Complex_Main "HOL-Library.AList"
begin

section \<open>Python values shared by both programs\<close>

text \<open>
  A Python \<^verbatim>\<open>dict\<close> keeps its keys in insertion order, and assigning to a key that
  is already present keeps the key's position. An association list with
  \<^const>\<open>AList.update\<close> as item assignment behaves the same way: the pair is replaced
  where it stands, or appended at the end. Reading a missing key raises
  \<^verbatim>\<open>KeyError\<close>; exceptions are values of type \<open>error\<close>, and a computation that
  may raise returns \<open>error + 'a\<close>.
\<close>

datatype error = FileNotFoundError | SystemExit | ValueError | KeyError

type_synonym ('k, 'v) dict = "('k \<times> 'v) list"

definition dict_contains :: "'k \<Rightarrow> ('k, 'v) dict \<Rightarrow> bool" where
  \<comment> \<open>\<^verbatim>\<open>k in d\<close>\<close>
  "dict_contains k d = (map_of d k \<noteq> None)"

definition dict_get :: "('k, 'v) dict \<Rightarrow> 'k \<Rightarrow> error + 'v" where
  \<comment> \<open>\<^verbatim>\<open>d[k]\<close>\<close>
  "dict_get d k = (case map_of d k of None \<Rightarrow> Inl KeyError | Some v \<Rightarrow> Inr v)"

definition dict_set :: "('k, 'v) dict \<Rightarrow> 'k \<Rightarrow> 'v \<Rightarrow> ('k, 'v) dict" where
  \<comment> \<open>\<^verbatim>\<open>d[k] = v\<close>\<close>
  "dict_set d k v = AList.update k v d"

definition keys :: "('k, 'v) dict \<Rightarrow> 'k list" where
  \<comment> \<open>the keys in iteration order\<close>
  "keys d = map fst d"

section \<open>dhcpspy.py\<close>

subsection \<open>Leases\<close>

text \<open>
  \<^verbatim>\<open>LeaseObject\<close> is the attribute bag filled in by \<^verbatim>\<open>getLeases\<close>. The start
  time is a \<^verbatim>\<open>datetime\<close>, of which \<^verbatim>\<open>monitorLeases\<close> only uses \<^verbatim>\<open>!=\<close>; it is
  an integer timestamp here.
\<close>

record LeaseObject =
  ip :: string
  binding_state :: string
  start :: int

type_synonym leases = "(string, LeaseObject) dict"

text \<open>
  \<^verbatim>\<open>getLeases\<close> (lines 43-84). Its argument is what the lease file holds when it is
  read: \<open>Inl FileNotFoundError\<close> when \<^verbatim>\<open>os.path.isfile\<close> fails, otherwise the dict
  that \<^verbatim>\<open>leases.get_current()\<close> returns. The loop of lines 74-82 walks the keys of
  that dict, reads each key's lease and stores a copy of its three fields.
\<close>

fun copyLeases :: "leases \<Rightarrow> string list \<Rightarrow> leases \<Rightarrow> error + leases" where
  "copyLeases currentLeases [] retMap = Inr retMap"
| "copyLeases currentLeases (macAddr # rest) retMap =
     (case dict_get currentLeases macAddr of
        Inl e \<Rightarrow> Inl e
      | Inr lease \<Rightarrow>
          copyLeases currentLeases rest
            (dict_set retMap macAddr
               \<lparr>ip = ip lease, binding_state = binding_state lease, start = start lease\<rparr>))"

definition getLeases :: "error + leases \<Rightarrow> error + leases" where
  "getLeases inputFile =
     (case inputFile of
        Inl e \<Rightarrow> Inl e
      | Inr currentLeases \<Rightarrow> copyLeases currentLeases (keys currentLeases) [])"

subsection \<open>The polling loop\<close>

text \<open>
  Everything \<^verbatim>\<open>monitorLeases\<close> does to the outside world is one of three calls;
  the trace records them in order. The handler is taken to read the map it is given
  and return, as \<^verbatim>\<open>displayLeases\<close> and \<^verbatim>\<open>sendToService\<close> do: it neither changes
  the map nor raises.
\<close>

datatype event =
    GetLeases                    \<comment> \<open>\<^verbatim>\<open>getLeases(leaseFile)\<close>\<close>
  | HandleUpdates leases bool    \<comment> \<open>\<^verbatim>\<open>fnHandleUpdates(leaseMap, isDelta)\<close>\<close>
  | Sleep real                   \<comment> \<open>\<^verbatim>\<open>time.sleep(interval)\<close>\<close>

record monitor_state =
  previousLeases :: leases
  trace :: "event list"

datatype status = Returned | Raised error | Looping

definition emit :: "event \<Rightarrow> monitor_state \<Rightarrow> monitor_state" where
  "emit ev s = s\<lparr>trace := trace s @ [ev]\<rparr>"

text \<open>
  Lines 141-145: the scan of the current snapshot. The pair carries
  \<^verbatim>\<open>updatedNewLeases\<close> and \<^verbatim>\<open>previousLeases\<close> (here \<open>prevLeases\<close>), both
  assigned in the loop body.
\<close>

fun scanLeases :: "leases \<Rightarrow> string list \<Rightarrow> leases \<times> leases \<Rightarrow> error + leases \<times> leases" where
  "scanLeases dhcpLeases [] (updatedNewLeases, prevLeases) =
     Inr (updatedNewLeases, prevLeases)"
| "scanLeases dhcpLeases (macAddr # rest) (updatedNewLeases, prevLeases) =
     (case dict_get dhcpLeases macAddr of
        Inl e \<Rightarrow> Inl e
      | Inr lease \<Rightarrow>
          if \<not> dict_contains macAddr prevLeases
             \<or> (case dict_get prevLeases macAddr of
                   Inl e \<Rightarrow> False
                 | Inr old \<Rightarrow> start lease \<noteq> start old)
          then scanLeases dhcpLeases rest
                 (dict_set updatedNewLeases macAddr lease, dict_set prevLeases macAddr lease)
          else scanLeases dhcpLeases rest (updatedNewLeases, prevLeases))"

text \<open>
  Lines 128-153: one pass through the body of \<^verbatim>\<open>while True\<close>, after
  \<^verbatim>\<open>getLeases\<close> has returned \<open>dhcpLeases\<close>. The inner \<^verbatim>\<open>else\<close> of lines 150-151 is
  kept although the outer test makes it unreachable. Line 134 makes
  \<^verbatim>\<open>previousLeases\<close> the same object as \<^verbatim>\<open>dhcpLeases\<close>; the next pass binds
  \<^verbatim>\<open>dhcpLeases\<close> to a fresh map before line 145 writes to \<^verbatim>\<open>previousLeases\<close>, so
  a copy of the value behaves the same.
\<close>

definition monitorLeases_body ::
  "leases \<Rightarrow> real \<Rightarrow> bool \<Rightarrow> monitor_state \<Rightarrow> status \<times> monitor_state" where
  "monitorLeases_body dhcpLeases interval alwaysSendAllData s =
     (if length (previousLeases s) = 0 \<or> alwaysSendAllData then
        let s1 = emit (HandleUpdates dhcpLeases False) s in
        if interval < 1 then (Returned, s1)
        else (Looping, emit (Sleep interval) (s1\<lparr>previousLeases := dhcpLeases\<rparr>))
      else if \<not> alwaysSendAllData then
        (case (if length dhcpLeases > 0
               then scanLeases dhcpLeases (keys dhcpLeases) ([], previousLeases s)
               else Inr ([], previousLeases s)) of
           Inl e \<Rightarrow> (Raised e, s)
         | Inr (updatedNewLeases, prevLeases) \<Rightarrow>
             let s1 = s\<lparr>previousLeases := prevLeases\<rparr>;
                 s2 = (if length updatedNewLeases > 0
                       then emit (HandleUpdates updatedNewLeases True) s1 else s1)
             in (Looping, emit (Sleep interval) s2))
      else (Looping, emit (Sleep interval) (emit (HandleUpdates dhcpLeases False) s)))"

text \<open>
  The loop never ends by itself when \<open>interval \<ge> 1\<close>, so it is run against the finite
  list of lease-file contents that the successive calls of \<^verbatim>\<open>getLeases\<close> find. When
  the list is used up the loop is still going: the status is \<open>Looping\<close>.
\<close>

fun monitorLeases_loop ::
  "(error + leases) list \<Rightarrow> real \<Rightarrow> bool \<Rightarrow> monitor_state \<Rightarrow> status \<times> monitor_state" where
  "monitorLeases_loop [] interval alwaysSendAllData s = (Looping, s)"
| "monitorLeases_loop (inputFile # later) interval alwaysSendAllData s =
     (case getLeases inputFile of
        Inl e \<Rightarrow> (Raised e, emit GetLeases s)
      | Inr dhcpLeases \<Rightarrow>
          (case monitorLeases_body dhcpLeases interval alwaysSendAllData (emit GetLeases s) of
             (Looping, s') \<Rightarrow> monitorLeases_loop later interval alwaysSendAllData s'
           | (st, s') \<Rightarrow> (st, s')))"

definition monitorLeases :: "(error + leases) list \<Rightarrow> real \<Rightarrow> bool \<Rightarrow> status \<times> monitor_state" where
  "monitorLeases leaseFile interval alwaysSendAllData =
     monitorLeases_loop leaseFile interval alwaysSendAllData \<lparr>previousLeases = [], trace = []\<rparr>"

text \<open>
  The two states of the delta engine, read off the test of line 128: the engine is
  in its initial state while the retained snapshot is empty, and steady otherwise.
\<close>

definition INITIAL :: "monitor_state \<Rightarrow> bool" where
  "INITIAL s = (length (previousLeases s) = 0)"

definition STEADY :: "monitor_state \<Rightarrow> bool" where
  "STEADY s = (\<not> INITIAL s)"

text \<open>
  The test of line 143 for one address, on the two snapshots as maps: the address is
  in the current snapshot, and it is absent from the previous one or its start differs.
\<close>

definition changed :: "leases \<Rightarrow> leases \<Rightarrow> string \<Rightarrow> bool" where
  "changed dhcpLeases prev macAddr =
     (case map_of dhcpLeases macAddr of
        None \<Rightarrow> False
      | Some lease \<Rightarrow>
          (case map_of prev macAddr of
             None \<Rightarrow> True
           | Some old \<Rightarrow> start lease \<noteq> start old))"

section \<open>MiceAndMenSpy.py\<close>

subsection \<open>Dates\<close>

text \<open>
  A naive \<^verbatim>\<open>datetime\<close>. Python orders two of them by their fields, most
  significant first.
\<close>

record datetime =
  year :: nat
  month :: nat
  day :: nat
  hour :: nat
  minute :: nat
  second :: nat
  microsecond :: nat

fun lex_less :: "nat list \<Rightarrow> nat list \<Rightarrow> bool" where
  "lex_less (x # xs) (y # ys) = (x < y \<or> (x = y \<and> lex_less xs ys))"
| "lex_less xs ys = False"

definition datetime_fields :: "datetime \<Rightarrow> nat list" where
  "datetime_fields d = [year d, month d, day d, hour d, minute d, second d, microsecond d]"

definition datetime_gt :: "datetime \<Rightarrow> datetime \<Rightarrow> bool" where
  \<comment> \<open>\<^verbatim>\<open>a > b\<close>\<close>
  "datetime_gt a b = lex_less (datetime_fields b) (datetime_fields a)"

text \<open>
  \<^verbatim>\<open>dt - relativedelta(months=12)\<close>, as dateutil computes it: the constructor turns
  twelve months into one year, the subtraction lowers the year by one, keeps the
  month, cuts the day down to the length of that month in the new year
  (\<^verbatim>\<open>calendar.monthrange\<close>) and leaves the time of day alone. There is no year 0:
  \<^verbatim>\<open>datetime.replace\<close> raises \<^verbatim>\<open>ValueError\<close>.
\<close>

definition isleap :: "nat \<Rightarrow> bool" where
  "isleap y = (y mod 4 = 0 \<and> (y mod 100 \<noteq> 0 \<or> y mod 400 = 0))"

definition monthrange :: "nat \<Rightarrow> nat \<Rightarrow> nat" where
  "monthrange y m =
     (if m = 2 then (if isleap y then 29 else 28)
      else if m = 4 \<or> m = 6 \<or> m = 9 \<or> m = 11 then 30 else 31)"

definition minus_12_months :: "datetime \<Rightarrow> error + datetime" where
  "minus_12_months dt =
     (if year dt - 1 < 1 then Inl ValueError
      else Inr (dt\<lparr>year := year dt - 1,
                   day := min (monthrange (year dt - 1) (month dt)) (day dt)\<rparr>))"

subsection \<open>Strings\<close>

text \<open>
  \<^verbatim>\<open>str.lower\<close> on the ASCII letters, which is all a hardware address or an OUI
  prefix holds; every other character is left as it is. \<open>str_in sub s\<close> is Python's
  \<^verbatim>\<open>sub in s\<close> on strings: \<open>sub\<close> occurs in \<open>s\<close> as a run of consecutive characters.
\<close>

definition char_lower :: "char \<Rightarrow> char" where
  "char_lower c =
     (case map_of (zip ''ABCDEFGHIJKLMNOPQRSTUVWXYZ'' ''abcdefghijklmnopqrstuvwxyz'') c of
        None \<Rightarrow> c
      | Some l \<Rightarrow> l)"

definition lower :: "string \<Rightarrow> string" where
  "lower s = map char_lower s"

fun startswith :: "string \<Rightarrow> string \<Rightarrow> bool" where
  "startswith s [] = True"
| "startswith [] (p # ps) = False"
| "startswith (c # cs) (p # ps) = (c = p \<and> startswith cs ps)"

fun str_in :: "string \<Rightarrow> string \<Rightarrow> bool" where
  "str_in sub [] = (sub = [])"
| "str_in sub (c # cs) = (startswith (c # cs) sub \<or> str_in sub cs)"

subsection \<open>Reading a JSON file\<close>

text \<open>
  \<^verbatim>\<open>readMapFromJsonFile\<close> (lines 107-117). The argument is what opening and parsing
  the file gives: the parsed map, or the exception raised on the way, which the
  function turns into the empty map.
\<close>

definition readMapFromJsonFile :: "error + ('k, 'v) dict \<Rightarrow> ('k, 'v) dict" where
  "readMapFromJsonFile fName = (case fName of Inl e \<Rightarrow> [] | Inr m \<Rightarrow> m)"

subsection \<open>Classifying the records of one network\<close>

text \<open>
  A reservation record as the inventory returns it, with the two fields the program
  reads. The block returned for a network maps a category to the records found in
  it, keyed by hardware address. The OUI table maps a category to its prefixes.
\<close>

record ipam_record =
  lastKnownClientIdentifier :: string
  lastSeenDate :: string

type_synonym info_block = "(string, (string, ipam_record) dict) dict"

type_synonym oui_map = "(string, string list) dict"

definition store :: "info_block \<Rightarrow> string \<Rightarrow> string \<Rightarrow> ipam_record \<Rightarrow> error + info_block" where
  \<comment> \<open>\<^verbatim>\<open>retMap[ouiType][macAddr] = record\<close>\<close>
  "store retMap ouiType macAddr record =
     (case dict_get retMap ouiType of
        Inl e \<Rightarrow> Inl e
      | Inr inner \<Rightarrow> Inr (dict_set retMap ouiType (dict_set inner macAddr record)))"

text \<open>Lines 198-201: the prefixes of one category.\<close>

fun matchPrefixes ::
  "string list \<Rightarrow> string \<Rightarrow> string \<Rightarrow> ipam_record \<Rightarrow> info_block \<times> bool
     \<Rightarrow> error + info_block \<times> bool" where
  "matchPrefixes [] ouiType macAddr record (retMap, foundMatch) = Inr (retMap, foundMatch)"
| "matchPrefixes (macID # rest) ouiType macAddr record (retMap, foundMatch) =
     (if str_in (lower macID) (lower (take (length macID) macAddr)) then
        (case store retMap ouiType macAddr record of
           Inl e \<Rightarrow> Inl e
         | Inr retMap' \<Rightarrow> matchPrefixes rest ouiType macAddr record (retMap', True))
      else matchPrefixes rest ouiType macAddr record (retMap, foundMatch))"

text \<open>Lines 193-201: the categories of the OUI table, in its order.\<close>

fun classifyLoop ::
  "oui_map \<Rightarrow> string list \<Rightarrow> string \<Rightarrow> ipam_record \<Rightarrow> info_block \<times> bool
     \<Rightarrow> error + info_block \<times> bool" where
  "classifyLoop OUI_MAP [] macAddr record (retMap, foundMatch) = Inr (retMap, foundMatch)"
| "classifyLoop OUI_MAP (ouiType # rest) macAddr record (retMap, foundMatch) =
     (let retMap1 = (if \<not> dict_contains ouiType retMap then dict_set retMap ouiType []
                     else retMap)
      in if \<not> foundMatch then
           (case dict_get OUI_MAP ouiType of
              Inl e \<Rightarrow> Inl e
            | Inr macIDs \<Rightarrow>
                (case matchPrefixes macIDs ouiType macAddr record (retMap1, foundMatch) of
                   Inl e \<Rightarrow> Inl e
                 | Inr st \<Rightarrow> classifyLoop OUI_MAP rest macAddr record st))
         else classifyLoop OUI_MAP rest macAddr record (retMap1, foundMatch))"

text \<open>Lines 190-207: what is done with a record that is recent enough.\<close>

definition classifyRecord :: "oui_map \<Rightarrow> info_block \<Rightarrow> ipam_record \<Rightarrow> error + info_block" where
  "classifyRecord OUI_MAP retMap record =
     (let macAddr = lastKnownClientIdentifier record in
      case classifyLoop OUI_MAP (keys OUI_MAP) macAddr record (retMap, False) of
        Inl e \<Rightarrow> Inl e
      | Inr (retMap1, foundMatch) \<Rightarrow>
          (case (if \<not> foundMatch then store retMap1 ''Other'' macAddr record
                 else Inr retMap1) of
             Inl e \<Rightarrow> Inl e
           | Inr retMap2 \<Rightarrow> store retMap2 ''All'' macAddr record))"

text \<open>
  Lines 182-211: the loop over the records. \<open>strptime\<close> stands for
  \<^verbatim>\<open>datetime.strptime(_, '%b %d, %Y %H:%M:%S')\<close>, which raises \<^verbatim>\<open>ValueError\<close> on a
  text that does not fit the format.
\<close>

fun processRecords ::
  "oui_map \<Rightarrow> (string \<Rightarrow> error + datetime) \<Rightarrow> datetime \<Rightarrow> ipam_record list \<Rightarrow> info_block
     \<Rightarrow> error + info_block" where
  "processRecords OUI_MAP strptime checkDate [] retMap = Inr retMap"
| "processRecords OUI_MAP strptime checkDate (record # rest) retMap =
     (if length (lastKnownClientIdentifier record) > 0 then
        (case strptime (lastSeenDate record) of
           Inl e \<Rightarrow> Inl e
         | Inr lastSeen \<Rightarrow>
             if datetime_gt lastSeen checkDate then
               (case classifyRecord OUI_MAP retMap record of
                  Inl e \<Rightarrow> Inl e
                | Inr retMap' \<Rightarrow> processRecords OUI_MAP strptime checkDate rest retMap')
             else processRecords OUI_MAP strptime checkDate rest retMap)
      else processRecords OUI_MAP strptime checkDate rest retMap)"

text \<open>
  \<^verbatim>\<open>getInfoBlockForNetwork\<close> (lines 128-213). The REST calls and the cache files are
  outside the program, so their outcome is an argument:
  \<^item> \<open>now\<close> is what \<^verbatim>\<open>datetime.now()\<close> returns;
  \<^item> \<open>rangeData\<close> is the outcome of lines 150-166: \<open>Inl e\<close> when
    \<^verbatim>\<open>getResponseData\<close> leaves the program, \<open>Inr None\<close> when reading
    \<^verbatim>\<open>rangeData['ranges'][0]['ref']\<close> raises, \<open>Inr (Some rangeRef)\<close> otherwise;
  \<^item> \<open>respData\<close> is the outcome of lines 168-182: the records under
    \<^verbatim>\<open>'ipamRecords'\<close>, from the local file or from the REST call, or the exception.
\<close>

definition getInfoBlockForNetwork ::
  "oui_map \<Rightarrow> (string \<Rightarrow> error + datetime) \<Rightarrow> datetime \<Rightarrow> error + string option
     \<Rightarrow> error + ipam_record list \<Rightarrow> error + info_block" where
  "getInfoBlockForNetwork OUI_MAP strptime now rangeData respData =
     (let retMap = dict_set (dict_set [] ''Other'' []) ''All'' [] in
      case minus_12_months now of
        Inl e \<Rightarrow> Inl e
      | Inr checkDate \<Rightarrow>
          (case rangeData of
             Inl e \<Rightarrow> Inl e
           | Inr None \<Rightarrow> Inr retMap
           | Inr (Some rangeRef) \<Rightarrow>
               (case respData of
                  Inl e \<Rightarrow> Inl e
                | Inr ipamRecords \<Rightarrow>
                    processRecords OUI_MAP strptime checkDate ipamRecords retMap)))"

subsection \<open>Reading the result\<close>

text \<open>
  The record stored for an address under a category of a block, if any.
\<close>

definition lookup2 :: "info_block \<Rightarrow> string \<Rightarrow> string \<Rightarrow> ipam_record option" where
  "lookup2 retMap ouiType macAddr =
     (case map_of retMap ouiType of None \<Rightarrow> None | Some inner \<Rightarrow> map_of inner macAddr)"

text \<open>
  The classification rule in the specification's words: a prefix matches an address
  when it equals, letter case aside, the address cut to the prefix's length; a
  category matches when one of its prefixes does; the category of an address is the
  first matching one in the table's order, and \<^verbatim>\<open>Other\<close> when there is none.
\<close>

definition prefix_matches :: "string \<Rightarrow> string \<Rightarrow> bool" where
  "prefix_matches macID macAddr = (lower macID = lower (take (length macID) macAddr))"

definition category_matches :: "oui_map \<Rightarrow> string \<Rightarrow> string \<Rightarrow> bool" where
  "category_matches OUI_MAP macAddr ouiType =
     (case map_of OUI_MAP ouiType of
        None \<Rightarrow> False
      | Some macIDs \<Rightarrow> \<exists>macID \<in> set macIDs. prefix_matches macID macAddr)"

definition first_match :: "oui_map \<Rightarrow> string \<Rightarrow> string" where
  "first_match OUI_MAP macAddr =
     (case find (category_matches OUI_MAP macAddr) (keys OUI_MAP) of
        None \<Rightarrow> ''Other''
      | Some ouiType \<Rightarrow> ouiType)"

text \<open>
  The two tests of lines 183 and 187 on one record: it names a hardware address, and
  its parsed date is later than \<open>checkDate\<close>.
\<close>

definition retained :: "(string \<Rightarrow> error + datetime) \<Rightarrow> datetime \<Rightarrow> ipam_record \<Rightarrow> bool" where
  "retained strptime checkDate record =
     (length (lastKnownClientIdentifier record) > 0
      \<and> (case strptime (lastSeenDate record) of
            Inl e \<Rightarrow> False
          | Inr lastSeen \<Rightarrow> datetime_gt lastSeen checkDate))"

text \<open>The last retained record of a list that carries a given address.\<close>

definition last_retained ::
  "(string \<Rightarrow> error + datetime) \<Rightarrow> datetime \<Rightarrow> ipam_record list \<Rightarrow> string
     \<Rightarrow> ipam_record option" where
  "last_retained strptime checkDate ipamRecords macAddr =
     find (\<lambda>record. retained strptime checkDate record
                     \<and> lastKnownClientIdentifier record = macAddr) (rev ipamRecords)"

subsection \<open>Example inputs\<close>

text \<open>
  A small OUI table, a clock reading and a parser that knows a few date texts; every
  other text is rejected, as a text outside the format is.
\<close>

definition example_OUI_MAP :: oui_map where
  "example_OUI_MAP =
     [(''VM'', [''00:50:56'', ''00:0C:29'']), (''PDU'', [''00:0c'', ''AA:BB''])]"

definition example_now :: datetime where
  "example_now =
     \<lparr>year = 2024, month = 6, day = 29, hour = 1, minute = 2, second = 3, microsecond = 0\<rparr>"

definition example_strptime :: "string \<Rightarrow> error + datetime" where
  "example_strptime date_string =
     (case map_of
        [(''Jun 29, 2023 01:02:03'',
          \<lparr>year = 2023, month = 6, day = 29, hour = 1, minute = 2, second = 3, microsecond = 0\<rparr>),
         (''Jun 29, 2023 01:02:04'',
          \<lparr>year = 2023, month = 6, day = 29, hour = 1, minute = 2, second = 4, microsecond = 0\<rparr>),
         (''May 01, 2024 10:00:00'',
          \<lparr>year = 2024, month = 5, day = 1, hour = 10, minute = 0, second = 0, microsecond = 0\<rparr>)]
        date_string of
        None \<Rightarrow> Inl ValueError
      | Some d \<Rightarrow> Inr d)"

definition example_checkDate :: datetime where
  "example_checkDate =
     \<lparr>year = 2023, month = 6, day = 29, hour = 1, minute = 2, second = 3, microsecond = 0\<rparr>"

definition example_records :: "ipam_record list" where
  "example_records =
     [\<lparr>lastKnownClientIdentifier = ''00:0c:29:AA:BB:CC'', lastSeenDate = ''May 01, 2024 10:00:00''\<rparr>,
      \<lparr>lastKnownClientIdentifier = ''aa:bb:01:02:03:04'', lastSeenDate = ''Jun 29, 2023 01:02:04''\<rparr>,
      \<lparr>lastKnownClientIdentifier = ''12:34:56:78:9a:bc'', lastSeenDate = ''Jun 29, 2023 01:02:03''\<rparr>,
      \<lparr>lastKnownClientIdentifier = '''', lastSeenDate = ''never''\<rparr>,
      \<lparr>lastKnownClientIdentifier = ''de:ad:be:ef:00:01'', lastSeenDate = ''May 01, 2024 10:00:00''\<rparr>]"

subsection \<open>The report\<close>

text \<open>
  \<^verbatim>\<open>CreateCsvFiles\<close> (lines 216-256) turns the blocks of all labs into the map behind
  the report. For a lab it keeps \<^verbatim>\<open>subnetMap\<close>, which maps a category to a map from
  a subnet to the line written for it (the subnet's name followed by the addresses),
  and under \<^verbatim>\<open>Duplicates\<close> maps an address to a list of subnets; and \<^verbatim>\<open>labMacs\<close>,
  the subnets each address was met on. The files written in lines 248-255 are output
  only and are left out.
\<close>

type_synonym subnet_map = "(string, (string, string list) dict) dict"

type_synonym block_map = "(string, (string, info_block) dict) dict"

text \<open>
  Lines 233-244: one address of one category of one subnet. Line 240 stores under
  \<^verbatim>\<open>Duplicates\<close> the very list held in \<^verbatim>\<open>labMacs\<close>; every later change of that
  list (line 239) is followed by the same assignment, so storing the list's value
  gives the same map, as long as no category of a block is itself named
  \<^verbatim>\<open>Duplicates\<close>.
\<close>

definition addMac ::
  "string \<Rightarrow> string \<Rightarrow> string \<Rightarrow> subnet_map \<times> (string, string list) dict
     \<Rightarrow> error + subnet_map \<times> (string, string list) dict" where
  "addMac subnet type macAddr st =
     (case st of (subnetMap, labMacs) \<Rightarrow>
      (case dict_get subnetMap type of
         Inl e \<Rightarrow> Inl e
       | Inr bySubnet \<Rightarrow>
           let bySubnet1 = (if \<not> dict_contains subnet bySubnet
                            then dict_set bySubnet subnet [subnet] else bySubnet)
           in (case dict_get bySubnet1 subnet of
                 Inl e \<Rightarrow> Inl e
               | Inr line \<Rightarrow>
                   let subnetMap1 =
                         dict_set subnetMap type (dict_set bySubnet1 subnet (line @ [macAddr]))
                   in if dict_contains macAddr labMacs then
                        (case dict_get labMacs macAddr of
                           Inl e \<Rightarrow> Inl e
                         | Inr subnets \<Rightarrow>
                             let labMacs1 = dict_set labMacs macAddr (subnets @ [subnet]) in
                             (case dict_get subnetMap1 ''Duplicates'' of
                                Inl e \<Rightarrow> Inl e
                              | Inr duplicates \<Rightarrow>
                                  Inr (dict_set subnetMap1 ''Duplicates''
                                         (dict_set duplicates macAddr (subnets @ [subnet])),
                                       labMacs1)))
                      else Inr (subnetMap1, dict_set labMacs macAddr [subnet]))))"

text \<open>Line 232: the addresses of a category.\<close>

fun macLoop ::
  "string \<Rightarrow> string \<Rightarrow> string list \<Rightarrow> subnet_map \<times> (string, string list) dict
     \<Rightarrow> error + subnet_map \<times> (string, string list) dict" where
  "macLoop subnet type [] st = Inr st"
| "macLoop subnet type (macAddr # rest) st =
     (case addMac subnet type macAddr st of
        Inl e \<Rightarrow> Inl e
      | Inr st' \<Rightarrow> macLoop subnet type rest st')"

text \<open>Lines 228-230: the categories of a subnet's block.\<close>

fun typeLoop ::
  "info_block \<Rightarrow> string \<Rightarrow> string list \<Rightarrow> subnet_map \<times> (string, string list) dict
     \<Rightarrow> error + subnet_map \<times> (string, string list) dict" where
  "typeLoop block subnet [] st = Inr st"
| "typeLoop block subnet (type # rest) st =
     (case st of (subnetMap, labMacs) \<Rightarrow>
      let subnetMap1 = (if \<not> dict_contains type subnetMap then dict_set subnetMap type []
                        else subnetMap)
      in (case dict_get block type of
            Inl e \<Rightarrow> Inl e
          | Inr macs \<Rightarrow>
              (case macLoop subnet type (keys macs) (subnetMap1, labMacs) of
                 Inl e \<Rightarrow> Inl e
               | Inr st' \<Rightarrow> typeLoop block subnet rest st')))"

text \<open>Line 227: the subnets of a lab.\<close>

fun subnetLoop ::
  "(string, info_block) dict \<Rightarrow> string list \<Rightarrow> subnet_map \<times> (string, string list) dict
     \<Rightarrow> error + subnet_map \<times> (string, string list) dict" where
  "subnetLoop subnets [] st = Inr st"
| "subnetLoop subnets (subnet # rest) st =
     (case dict_get subnets subnet of
        Inl e \<Rightarrow> Inl e
      | Inr block \<Rightarrow>
          (case typeLoop block subnet (keys block) st of
             Inl e \<Rightarrow> Inl e
           | Inr st' \<Rightarrow> subnetLoop subnets rest st'))"

text \<open>Lines 222-246: the labs.\<close>

fun labLoop ::
  "block_map \<Rightarrow> string list \<Rightarrow> (string, subnet_map) dict \<Rightarrow> error + (string, subnet_map) dict"
  where
  "labLoop blockMap [] labMap = Inr labMap"
| "labLoop blockMap (lab # rest) labMap =
     (case dict_get blockMap lab of
        Inl e \<Rightarrow> Inl e
      | Inr subnets \<Rightarrow>
          (case subnetLoop subnets (keys subnets) (dict_set [] ''Duplicates'' [], []) of
             Inl e \<Rightarrow> Inl e
           | Inr (subnetMap, labMacs) \<Rightarrow> labLoop blockMap rest (dict_set labMap lab subnetMap)))"

definition CreateCsvFiles :: "block_map \<Rightarrow> error + (string, subnet_map) dict" where
  "CreateCsvFiles blockMap = labLoop blockMap (keys blockMap) []"

subsection \<open>The main program\<close>

text \<open>
  What the inventory and the clock give for each network: the clock reading during
  the call, the date parser, and the two outcomes that \<^verbatim>\<open>getInfoBlockForNetwork\<close>
  takes.
\<close>

record ddi =
  clock :: "string \<Rightarrow> datetime"
  parse_date :: "string \<Rightarrow> error + datetime"
  ranges :: "string \<Rightarrow> error + string option"
  reservations :: "string \<Rightarrow> error + ipam_record list"

text \<open>Lines 301-311: the networks of one lab.\<close>

fun networkLoop ::
  "oui_map \<Rightarrow> ddi \<Rightarrow> string \<Rightarrow> string list \<Rightarrow> block_map \<Rightarrow> error + block_map" where
  "networkLoop OUI_MAP d lab [] blockMap = Inr blockMap"
| "networkLoop OUI_MAP d lab (network # rest) blockMap =
     (case getInfoBlockForNetwork OUI_MAP (parse_date d) (clock d network) (ranges d network)
             (reservations d network) of
        Inl e \<Rightarrow> Inl e
      | Inr reservationBlockInfo \<Rightarrow>
          let blockMap1 = (if \<not> dict_contains lab blockMap then dict_set blockMap lab []
                           else blockMap)
          in (case dict_get blockMap1 lab of
                Inl e \<Rightarrow> Inl e
              | Inr byNetwork \<Rightarrow>
                  networkLoop OUI_MAP d lab rest
                    (dict_set blockMap1 lab (dict_set byNetwork network reservationBlockInfo))))"

text \<open>Line 300: the labs of the network list, with their networks.\<close>

fun networksLoop ::
  "oui_map \<Rightarrow> ddi \<Rightarrow> (string, string list) dict \<Rightarrow> block_map \<Rightarrow> error + block_map" where
  "networksLoop OUI_MAP d [] blockMap = Inr blockMap"
| "networksLoop OUI_MAP d ((lab, networkList) # rest) blockMap =
     (case networkLoop OUI_MAP d lab networkList blockMap of
        Inl e \<Rightarrow> Inl e
      | Inr blockMap' \<Rightarrow> networksLoop OUI_MAP d rest blockMap')"

text \<open>
  Lines 318-329: the summary. A printed line is the name of a lab or a category with
  its total.
\<close>

datatype line = LabLine string | TotalLine string nat

fun sumLines :: "(string, string list) dict \<Rightarrow> string list \<Rightarrow> nat \<Rightarrow> error + nat" where
  "sumLines subnetList [] total' = Inr total'"
| "sumLines subnetList (subnet # rest) total' =
     (case dict_get subnetList subnet of
        Inl e \<Rightarrow> Inl e
      | Inr line \<Rightarrow> sumLines subnetList rest (total' + length line))"

definition categoryTotal :: "string \<Rightarrow> (string, string list) dict \<Rightarrow> error + nat" where
  "categoryTotal type subnetList =
     (if type = ''Duplicates'' then Inr (length subnetList)
      else sumLines subnetList (keys subnetList) 0)"

fun printTotals :: "subnet_map \<Rightarrow> error + line list" where
  "printTotals [] = Inr []"
| "printTotals ((type, subnetList) # rest) =
     (case categoryTotal type subnetList of
        Inl e \<Rightarrow> Inl e
      | Inr total' \<Rightarrow>
          (case printTotals rest of
             Inl e \<Rightarrow> Inl e
           | Inr lines \<Rightarrow> Inr ((if total' > 0 then [TotalLine type total'] else []) @ lines)))"

fun printSummary :: "(string, subnet_map) dict \<Rightarrow> error + line list" where
  "printSummary [] = Inr []"
| "printSummary ((lab, labMap) # rest) =
     (case printTotals labMap of
        Inl e \<Rightarrow> Inl e
      | Inr totals \<Rightarrow>
          (case printSummary rest of
             Inl e \<Rightarrow> Inl e
           | Inr lines \<Rightarrow> Inr (LabLine lab # totals @ lines)))"

text \<open>
  \<^verbatim>\<open>main\<close> (lines 259-331), from the point where the arguments are parsed. The result
  is the summary it prints; without the two credentials it prints no summary.
\<close>

definition main ::
  "bool \<Rightarrow> error + (string, string list) dict \<Rightarrow> error + oui_map \<Rightarrow> ddi \<Rightarrow> error + line list"
  where
  "main credentials networksFile ouiFile d =
     (if \<not> credentials then Inr []
      else
        let networks = readMapFromJsonFile networksFile;
            OUI_MAP = readMapFromJsonFile ouiFile
        in (case networksLoop OUI_MAP d networks [] of
              Inl e \<Rightarrow> Inl e
            | Inr blockMap \<Rightarrow>
                (case CreateCsvFiles blockMap of
                   Inl e \<Rightarrow> Inl e
                 | Inr retMap \<Rightarrow> printSummary retMap)))"

text \<open>
  An inventory for the examples: every network has a range, and the reservations of
  two networks are listed.
\<close>

definition example_ddi :: ddi where
  "example_ddi =
     \<lparr>clock = (\<lambda>network. example_now),
      parse_date = example_strptime,
      ranges = (\<lambda>network. Inr (Some (''Ranges/'' @ network))),
      reservations = (\<lambda>network.
        if network = ''10.0.0.0/24''
        then Inr [\<lparr>lastKnownClientIdentifier = ''aa:bb:cc:00:00:01'',
                    lastSeenDate = ''May 01, 2024 10:00:00''\<rparr>]
        else if network = ''10.0.1.0/24''
        then Inr [\<lparr>lastKnownClientIdentifier = ''aa:bb:cc:00:00:01'',
                    lastSeenDate = ''May 01, 2024 10:00:00''\<rparr>,
                  \<lparr>lastKnownClientIdentifier = ''aa:bb:cc:00:00:02'',
                    lastSeenDate = ''May 01, 2024 10:00:00''\<rparr>]
        else Inr [])\<rparr>"

section \<open>Properties of dhcpspy.py\<close>

subsection \<open>Dictionaries\<close>

lemma map_of_dict_set: "map_of (dict_set d k v) k' = (if k' = k then Some v else map_of d k')"
  by (simp add: dict_set_def update_conv')

lemma keys_dict_set: "set (keys (dict_set d k v)) = insert k (set (keys d))"
  by (simp add: dict_set_def keys_def dom_update)

lemma distinct_dict_set: "distinct (keys d) \<Longrightarrow> distinct (keys (dict_set d k v))"
  by (simp add: dict_set_def keys_def distinct_update)

lemma copyLeases_distinct:
  "copyLeases cur ks retMap = Inr r \<Longrightarrow> distinct (keys retMap) \<Longrightarrow> distinct (keys r)"
  by (induction ks arbitrary: retMap) (auto split: sum.splits simp: distinct_dict_set)

lemma getLeases_distinct: "getLeases inputFile = Inr dhcpLeases \<Longrightarrow> distinct (keys dhcpLeases)"
  by (auto simp: getLeases_def keys_def split: sum.splits dest: copyLeases_distinct)

lemma in_keys_map_of: "k \<in> set (keys d) \<Longrightarrow> \<exists>v. map_of d k = Some v"
  using map_of_eq_None_iff [of d k] by (auto simp: keys_def)

lemma in_keys_iff: "k \<in> set (keys d) \<longleftrightarrow> map_of d k \<noteq> None"
  using map_of_eq_None_iff [of d k] by (auto simp: keys_def)

lemma scanLeases_spec:
  "distinct ks \<Longrightarrow> set ks \<subseteq> set (keys d) \<Longrightarrow>
   \<exists>upd' prev'. scanLeases d ks (upd, prev) = Inr (upd', prev')
     \<and> (\<forall>m. map_of upd' m = (if m \<in> set ks \<and> changed d prev m then map_of d m else map_of upd m))
     \<and> (\<forall>m. map_of prev' m = (if m \<in> set ks \<and> changed d prev m then map_of d m else map_of prev m))"
proof (induction ks arbitrary: upd prev)
  case Nil
  then show ?case by simp
next
  case (Cons k ks)
  from Cons.prems obtain lease where lease: "map_of d k = Some lease"
    using in_keys_map_of [of k d] by auto
  have dk: "distinct ks" "set ks \<subseteq> set (keys d)" "k \<notin> set ks" using Cons.prems by auto
  show ?case
  proof (cases "changed d prev k")
    case True
    let ?prev = "dict_set prev k lease"
    have same: "changed d ?prev m = changed d prev m" if "m \<in> set ks" for m
    proof -
      from that dk(3) have "m \<noteq> k" by auto
      then show ?thesis by (simp add: changed_def map_of_dict_set split: option.splits)
    qed
    from Cons.IH[OF dk(1,2), of "dict_set upd k lease" ?prev]
    obtain upd' prev' where
      r: "scanLeases d ks (dict_set upd k lease, ?prev) = Inr (upd', prev')"
      and u: "\<forall>m. map_of upd' m = (if m \<in> set ks \<and> changed d ?prev m then map_of d m else map_of (dict_set upd k lease) m)"
      and p: "\<forall>m. map_of prev' m = (if m \<in> set ks \<and> changed d ?prev m then map_of d m else map_of ?prev m)"
      by blast
    have step: "scanLeases d (k # ks) (upd, prev) = Inr (upd', prev')"
      using True lease r
      by (auto simp: changed_def dict_get_def dict_contains_def split: option.splits)
    show ?thesis
      unfolding step using u p same True lease dk(3)
      by (auto simp: map_of_dict_set)
  next
    case False
    from Cons.IH[OF dk(1,2), of upd prev]
    obtain upd' prev' where
      r: "scanLeases d ks (upd, prev) = Inr (upd', prev')"
      and u: "\<forall>m. map_of upd' m = (if m \<in> set ks \<and> changed d prev m then map_of d m else map_of upd m)"
      and p: "\<forall>m. map_of prev' m = (if m \<in> set ks \<and> changed d prev m then map_of d m else map_of prev m)"
      by blast
    have step: "scanLeases d (k # ks) (upd, prev) = Inr (upd', prev')"
      using False lease r
      by (auto simp: changed_def dict_get_def dict_contains_def split: option.splits)
    show ?thesis
      unfolding step using u p False by auto
  qed
qed


lemma scanLeases_keys_subset:
  assumes "scanLeases d ks (upd, prev) = Inr (upd', prev')"
  shows "set (keys upd') \<subseteq> set (keys upd) \<union> set ks"
  using assms
proof (induction ks arbitrary: upd prev)
  case Nil
  then show ?case by simp
next
  case (Cons k ks)
  then show ?case
    by (fastforce split: sum.splits if_splits simp: keys_dict_set)
qed

text \<open>
  C8: for every interval below 1, once \<^verbatim>\<open>getLeases\<close> has returned the snapshot,
  \<^verbatim>\<open>monitorLeases\<close> calls the handler exactly once, with the whole snapshot and
  \<open>isDelta = False\<close>, and returns: the trace holds one read of the lease file and one
  handler call, no sleep and no second read, whatever the later file contents are
  and whatever \<open>alwaysSendAllData\<close> is.
\<close>

theorem one_shot_mode:
  assumes "interval < 1" and "getLeases inputFile = Inr dhcpLeases"
  shows "monitorLeases (inputFile # later) interval alwaysSendAllData =
           (Returned, \<lparr>previousLeases = [], trace = [GetLeases, HandleUpdates dhcpLeases False]\<rparr>)"
  using assms by (simp add: monitorLeases_def monitorLeases_body_def emit_def)

theorem one_shot_mode_witness:
  "(0::real) < 1
   \<and> getLeases (Inr [(''00:11:22:33:44:55'', \<lparr>ip = ''10.0.0.7'', binding_state = ''active'', start = 100\<rparr>)])
        = Inr [(''00:11:22:33:44:55'', \<lparr>ip = ''10.0.0.7'', binding_state = ''active'', start = 100\<rparr>)]
   \<and> monitorLeases
         [Inr [(''00:11:22:33:44:55'', \<lparr>ip = ''10.0.0.7'', binding_state = ''active'', start = 100\<rparr>)],
          Inl FileNotFoundError] 0 True =
       (Returned,
        \<lparr>previousLeases = [],
         trace = [GetLeases,
                  HandleUpdates
                    [(''00:11:22:33:44:55'', \<lparr>ip = ''10.0.0.7'', binding_state = ''active'', start = 100\<rparr>)]
                    False]\<rparr>)"
proof -
  have g: "getLeases (Inr [(''00:11:22:33:44:55'', \<lparr>ip = ''10.0.0.7'', binding_state = ''active'', start = 100\<rparr>)])
        = Inr [(''00:11:22:33:44:55'', \<lparr>ip = ''10.0.0.7'', binding_state = ''active'', start = 100\<rparr>)]"
    by (simp add: getLeases_def keys_def dict_get_def dict_set_def)
  have i: "(0::real) < 1" by simp
  show ?thesis using i g one_shot_mode [OF i g, of "[Inl FileNotFoundError]" True] by simp
qed

text \<open>
  C4: in the steady state without \<open>alwaysSendAllData\<close>, the partial result holds
  exactly the addresses of the current snapshot that are absent from the previous
  snapshot or whose start differs from the previous entry, each with its current
  lease; an address that is not in the current snapshot is never in it; and the
  handler is called, with the partial result and \<open>isDelta = True\<close>, exactly when the
  partial result is not empty.
\<close>

theorem steady_partial_result:
  assumes "getLeases inputFile = Inr dhcpLeases" and "STEADY s" and "\<not> alwaysSendAllData"
  shows "\<exists>updatedNewLeases prevLeases.
           scanLeases dhcpLeases (keys dhcpLeases) ([], previousLeases s)
             = Inr (updatedNewLeases, prevLeases)
         \<and> (\<forall>macAddr. map_of updatedNewLeases macAddr =
               (case map_of dhcpLeases macAddr of
                  None \<Rightarrow> None
                | Some lease \<Rightarrow>
                    (case map_of (previousLeases s) macAddr of
                       None \<Rightarrow> Some lease
                     | Some old \<Rightarrow> if start lease \<noteq> start old then Some lease else None)))
         \<and> set (keys updatedNewLeases) \<subseteq> set (keys dhcpLeases)
         \<and> monitorLeases_body dhcpLeases interval alwaysSendAllData s =
             (Looping,
              \<lparr>previousLeases = prevLeases,
               trace = trace s
                 @ (if updatedNewLeases = [] then [] else [HandleUpdates updatedNewLeases True])
                 @ [Sleep interval]\<rparr>)"
proof -
  have d: "distinct (keys dhcpLeases)" using assms(1) by (rule getLeases_distinct)
  from scanLeases_spec [OF d subset_refl, of "[]" "previousLeases s"]
  obtain upd prev where
    r: "scanLeases dhcpLeases (keys dhcpLeases) ([], previousLeases s) = Inr (upd, prev)"
    and u: "\<forall>m. map_of upd m =
              (if m \<in> set (keys dhcpLeases) \<and> changed dhcpLeases (previousLeases s) m
               then map_of dhcpLeases m else map_of [] m)"
    by blast
  have c1: "map_of upd m =
       (case map_of dhcpLeases m of
          None \<Rightarrow> None
        | Some lease \<Rightarrow>
            (case map_of (previousLeases s) m of
               None \<Rightarrow> Some lease
             | Some old \<Rightarrow> if start lease \<noteq> start old then Some lease else None))" for m
    using u [rule_format, of m]
    by (auto simp: changed_def in_keys_iff split: option.splits)
  have c2: "set (keys upd) \<subseteq> set (keys dhcpLeases)"
    using scanLeases_keys_subset [OF r] by (simp add: keys_def)
  have e: "scanLeases dhcpLeases (keys dhcpLeases) ([], previousLeases s) = Inr ([], previousLeases s)"
    if "dhcpLeases = []"
    using that by (simp add: keys_def)
  have c3: "monitorLeases_body dhcpLeases interval alwaysSendAllData s =
             (Looping,
              \<lparr>previousLeases = prev,
               trace = trace s @ (if upd = [] then [] else [HandleUpdates upd True]) @ [Sleep interval]\<rparr>)"
  proof (cases "dhcpLeases = []")
    case True
    with e r have "upd = []" "prev = previousLeases s" by auto
    with True assms(2,3) show ?thesis
      by (simp add: monitorLeases_body_def STEADY_def INITIAL_def emit_def)
  next
    case False
    with assms(2,3) r show ?thesis
      by (simp add: monitorLeases_body_def STEADY_def INITIAL_def emit_def)
  qed
  from r c1 c2 c3 show ?thesis by blast
qed


theorem steady_partial_result_witness:
  "getLeases (Inr [(''aa:01'', \<lparr>ip = ''10.0.0.1'', binding_state = ''active'', start = 1\<rparr>),
                  (''bb:02'', \<lparr>ip = ''10.0.0.2'', binding_state = ''active'', start = 2\<rparr>)])
     = Inr [(''aa:01'', \<lparr>ip = ''10.0.0.1'', binding_state = ''active'', start = 1\<rparr>),
            (''bb:02'', \<lparr>ip = ''10.0.0.2'', binding_state = ''active'', start = 2\<rparr>)]
   \<and> STEADY \<lparr>previousLeases =
                [(''aa:01'', \<lparr>ip = ''10.0.0.1'', binding_state = ''active'', start = 1\<rparr>),
                 (''cc:03'', \<lparr>ip = ''10.0.0.3'', binding_state = ''active'', start = 1\<rparr>)],
              trace = []\<rparr>
   \<and> monitorLeases_body
         [(''aa:01'', \<lparr>ip = ''10.0.0.1'', binding_state = ''active'', start = 1\<rparr>),
          (''bb:02'', \<lparr>ip = ''10.0.0.2'', binding_state = ''active'', start = 2\<rparr>)]
         5 False
         \<lparr>previousLeases =
            [(''aa:01'', \<lparr>ip = ''10.0.0.1'', binding_state = ''active'', start = 1\<rparr>),
             (''cc:03'', \<lparr>ip = ''10.0.0.3'', binding_state = ''active'', start = 1\<rparr>)],
          trace = []\<rparr>
       = (Looping,
          \<lparr>previousLeases =
             [(''aa:01'', \<lparr>ip = ''10.0.0.1'', binding_state = ''active'', start = 1\<rparr>),
              (''cc:03'', \<lparr>ip = ''10.0.0.3'', binding_state = ''active'', start = 1\<rparr>),
              (''bb:02'', \<lparr>ip = ''10.0.0.2'', binding_state = ''active'', start = 2\<rparr>)],
           trace =
             [HandleUpdates
                [(''bb:02'', \<lparr>ip = ''10.0.0.2'', binding_state = ''active'', start = 2\<rparr>)] True,
              Sleep 5]\<rparr>)"
proof -
  let ?cur = "[(''aa:01'', \<lparr>ip = ''10.0.0.1'', binding_state = ''active'', start = 1\<rparr>),
               (''bb:02'', \<lparr>ip = ''10.0.0.2'', binding_state = ''active'', start = 2\<rparr>)]"
  let ?s = "\<lparr>previousLeases =
              [(''aa:01'', \<lparr>ip = ''10.0.0.1'', binding_state = ''active'', start = 1\<rparr>),
               (''cc:03'', \<lparr>ip = ''10.0.0.3'', binding_state = ''active'', start = 1\<rparr>)],
            trace = []\<rparr>"
  have g: "getLeases (Inr ?cur) = Inr ?cur"
    by (simp add: getLeases_def keys_def dict_get_def dict_set_def)
  have st: "STEADY ?s" by (simp add: STEADY_def INITIAL_def)
  have na: "\<not> False" by simp
  have sc: "scanLeases ?cur (keys ?cur) ([], previousLeases ?s) =
              Inr ([(''bb:02'', \<lparr>ip = ''10.0.0.2'', binding_state = ''active'', start = 2\<rparr>)],
                   [(''aa:01'', \<lparr>ip = ''10.0.0.1'', binding_state = ''active'', start = 1\<rparr>),
                    (''cc:03'', \<lparr>ip = ''10.0.0.3'', binding_state = ''active'', start = 1\<rparr>),
                    (''bb:02'', \<lparr>ip = ''10.0.0.2'', binding_state = ''active'', start = 2\<rparr>)])"
    by (simp add: keys_def dict_get_def dict_set_def dict_contains_def)
  from steady_partial_result [OF g st na, of 5] sc
  have "monitorLeases_body ?cur 5 False ?s =
          (Looping,
           \<lparr>previousLeases =
              [(''aa:01'', \<lparr>ip = ''10.0.0.1'', binding_state = ''active'', start = 1\<rparr>),
               (''cc:03'', \<lparr>ip = ''10.0.0.3'', binding_state = ''active'', start = 1\<rparr>),
               (''bb:02'', \<lparr>ip = ''10.0.0.2'', binding_state = ''active'', start = 2\<rparr>)],
            trace =
              [HandleUpdates
                 [(''bb:02'', \<lparr>ip = ''10.0.0.2'', binding_state = ''active'', start = 2\<rparr>)] True,
               Sleep 5]\<rparr>)"
    by auto
  with g st show ?thesis by blast
qed

text \<open>
  C10: the steady comparison looks at \<open>start\<close> only. A lease that is in both
  snapshots with the same start is left out of the partial result, whatever its
  \<open>ip\<close> and \<open>binding_state\<close> are now, and the retained snapshot keeps the old entry
  for that address.
\<close>

theorem only_start_compared:
  assumes "getLeases inputFile = Inr dhcpLeases" and "STEADY s" and "\<not> alwaysSendAllData"
    and "map_of dhcpLeases macAddr = Some lease"
    and "map_of (previousLeases s) macAddr = Some old"
    and "start lease = start old"
  shows "\<exists>updatedNewLeases s'.
           scanLeases dhcpLeases (keys dhcpLeases) ([], previousLeases s)
             = Inr (updatedNewLeases, previousLeases s')
         \<and> monitorLeases_body dhcpLeases interval alwaysSendAllData s = (Looping, s')
         \<and> map_of updatedNewLeases macAddr = None
         \<and> map_of (previousLeases s') macAddr = Some old"
proof -
  have d: "distinct (keys dhcpLeases)" using assms(1) by (rule getLeases_distinct)
  from scanLeases_spec [OF d subset_refl, of "[]" "previousLeases s"]
  obtain upd prev where
    r: "scanLeases dhcpLeases (keys dhcpLeases) ([], previousLeases s) = Inr (upd, prev)"
    and u: "\<forall>m. map_of upd m =
              (if m \<in> set (keys dhcpLeases) \<and> changed dhcpLeases (previousLeases s) m
               then map_of dhcpLeases m else map_of [] m)"
    and p: "\<forall>m. map_of prev m =
              (if m \<in> set (keys dhcpLeases) \<and> changed dhcpLeases (previousLeases s) m
               then map_of dhcpLeases m else map_of (previousLeases s) m)"
    by blast
  have nc: "\<not> changed dhcpLeases (previousLeases s) macAddr"
    using assms(4-6) by (simp add: changed_def)
  have u1: "map_of upd macAddr = None" using u [rule_format, of macAddr] nc by simp
  have p1: "map_of prev macAddr = Some old" using p [rule_format, of macAddr] nc assms(5) by simp
  have ne: "dhcpLeases \<noteq> []" using assms(4) by auto
  let ?s' = "\<lparr>previousLeases = prev,
              trace = trace s @ (if upd = [] then [] else [HandleUpdates upd True]) @ [Sleep interval]\<rparr>"
  have b: "monitorLeases_body dhcpLeases interval alwaysSendAllData s = (Looping, ?s')"
    using ne assms(2,3) r by (simp add: monitorLeases_body_def STEADY_def INITIAL_def emit_def)
  have "scanLeases dhcpLeases (keys dhcpLeases) ([], previousLeases s) = Inr (upd, previousLeases ?s')"
    using r by simp
  moreover have "map_of (previousLeases ?s') macAddr = Some old" using p1 by simp
  ultimately show ?thesis using b u1 by blast
qed

theorem only_start_compared_witness:
  "getLeases (Inr [(''aa:01'', \<lparr>ip = ''10.0.0.9'', binding_state = ''free'', start = 1\<rparr>)])
     = Inr [(''aa:01'', \<lparr>ip = ''10.0.0.9'', binding_state = ''free'', start = 1\<rparr>)]
   \<and> STEADY \<lparr>previousLeases =
                [(''aa:01'', \<lparr>ip = ''10.0.0.1'', binding_state = ''active'', start = 1\<rparr>)],
              trace = []\<rparr>
   \<and> monitorLeases_body
         [(''aa:01'', \<lparr>ip = ''10.0.0.9'', binding_state = ''free'', start = 1\<rparr>)]
         5 False
         \<lparr>previousLeases =
            [(''aa:01'', \<lparr>ip = ''10.0.0.1'', binding_state = ''active'', start = 1\<rparr>)],
          trace = []\<rparr>
       = (Looping,
          \<lparr>previousLeases =
             [(''aa:01'', \<lparr>ip = ''10.0.0.1'', binding_state = ''active'', start = 1\<rparr>)],
           trace = [Sleep 5]\<rparr>)"
proof -
  let ?new = "\<lparr>ip = ''10.0.0.9'', binding_state = ''free'', start = 1\<rparr>"
  let ?old = "\<lparr>ip = ''10.0.0.1'', binding_state = ''active'', start = 1\<rparr>"
  let ?cur = "[(''aa:01'', ?new)]"
  let ?s = "\<lparr>previousLeases = [(''aa:01'', ?old)], trace = []\<rparr>"
  have g: "getLeases (Inr ?cur) = Inr ?cur"
    by (simp add: getLeases_def keys_def dict_get_def dict_set_def)
  have st: "STEADY ?s" by (simp add: STEADY_def INITIAL_def)
  have na: "\<not> False" by simp
  have m1: "map_of ?cur ''aa:01'' = Some ?new" by simp
  have m2: "map_of (previousLeases ?s) ''aa:01'' = Some ?old" by simp
  have eq: "start ?new = start ?old" by simp
  from only_start_compared [OF g st na m1 m2 eq, of 5]
  obtain upd s' where
    b: "monitorLeases_body ?cur 5 False ?s = (Looping, s')"
    and p: "map_of (previousLeases s') ''aa:01'' = Some ?old"
    by blast
  have "monitorLeases_body ?cur 5 False ?s =
          (Looping, \<lparr>previousLeases = [(''aa:01'', ?old)], trace = [Sleep 5]\<rparr>)"
    using b p
    by (simp add: monitorLeases_body_def keys_def dict_get_def dict_set_def dict_contains_def
                  emit_def)
  with g st show ?thesis by blast
qed


text \<open>
  C3, as amended: when the retained snapshot is empty or \<open>alwaysSendAllData\<close> is set, the loop
  body calls the handler with the whole current snapshot and \<open>isDelta = False\<close>; with
  \<open>interval < 1\<close> it then returns, and otherwise it sleeps and the retained snapshot is
  the current one. The engine is then steady exactly when the current snapshot is not
  empty.
\<close>

theorem full_emission:
  assumes "INITIAL s \<or> alwaysSendAllData"
  shows "monitorLeases_body dhcpLeases interval alwaysSendAllData s =
           (if interval < 1
            then (Returned,
                  \<lparr>previousLeases = previousLeases s,
                   trace = trace s @ [HandleUpdates dhcpLeases False]\<rparr>)
            else (Looping,
                  \<lparr>previousLeases = dhcpLeases,
                   trace = trace s @ [HandleUpdates dhcpLeases False, Sleep interval]\<rparr>))
         \<and> (\<not> interval < 1 \<longrightarrow>
              (STEADY (snd (monitorLeases_body dhcpLeases interval alwaysSendAllData s))
                 \<longleftrightarrow> dhcpLeases \<noteq> []))"
  using assms
  by (auto simp: monitorLeases_body_def INITIAL_def STEADY_def emit_def)

theorem full_emission_witness:
  "INITIAL \<lparr>previousLeases = [], trace = []\<rparr>
   \<and> monitorLeases_body
         [(''aa:01'', \<lparr>ip = ''10.0.0.1'', binding_state = ''active'', start = 1\<rparr>)]
         5 False \<lparr>previousLeases = [], trace = []\<rparr>
       = (Looping,
          \<lparr>previousLeases =
             [(''aa:01'', \<lparr>ip = ''10.0.0.1'', binding_state = ''active'', start = 1\<rparr>)],
           trace =
             [HandleUpdates
                [(''aa:01'', \<lparr>ip = ''10.0.0.1'', binding_state = ''active'', start = 1\<rparr>)] False,
              Sleep 5]\<rparr>)
   \<and> STEADY (snd (monitorLeases_body
         [(''aa:01'', \<lparr>ip = ''10.0.0.1'', binding_state = ''active'', start = 1\<rparr>)]
         5 False \<lparr>previousLeases = [], trace = []\<rparr>))"
proof -
  have i: "INITIAL \<lparr>previousLeases = [], trace = []\<rparr> \<or> False"
    by (simp add: INITIAL_def)
  show ?thesis
    using i full_emission [OF i,
      of "[(''aa:01'', \<lparr>ip = ''10.0.0.1'', binding_state = ''active'', start = 1\<rparr>)]" 5]
    by (simp add: STEADY_def INITIAL_def)
qed

text \<open>
  C3 as first stated also puts the engine in the steady state whenever the loop goes
  on. An empty first snapshot refutes that: the retained snapshot stays empty, and the
  next poll is sent whole with \<open>isDelta = False\<close> again instead of as a delta.
\<close>

theorem full_emission_counterexample:
  "INITIAL \<lparr>previousLeases = [], trace = []\<rparr>
   \<and> monitorLeases_body [] 5 False \<lparr>previousLeases = [], trace = []\<rparr>
       = (Looping, \<lparr>previousLeases = [], trace = [HandleUpdates [] False, Sleep 5]\<rparr>)
   \<and> \<not> STEADY \<lparr>previousLeases = [], trace = [HandleUpdates [] False, Sleep 5]\<rparr>
   \<and> monitorLeases
         [Inr [],
          Inr [(''aa:01'', \<lparr>ip = ''10.0.0.1'', binding_state = ''active'', start = 1\<rparr>)]]
         5 False
       = (Looping,
          \<lparr>previousLeases =
             [(''aa:01'', \<lparr>ip = ''10.0.0.1'', binding_state = ''active'', start = 1\<rparr>)],
           trace =
             [GetLeases, HandleUpdates [] False, Sleep 5,
              GetLeases,
              HandleUpdates
                [(''aa:01'', \<lparr>ip = ''10.0.0.1'', binding_state = ''active'', start = 1\<rparr>)] False,
              Sleep 5]\<rparr>)"
  by (simp add: INITIAL_def STEADY_def monitorLeases_def monitorLeases_body_def emit_def
                getLeases_def keys_def dict_get_def dict_set_def)


section \<open>Properties of MiceAndMenSpy.py\<close>

subsection \<open>Strings\<close>

lemma length_lower: "length (lower s) = length s"
  by (simp add: lower_def)

lemma startswith_length: "startswith s p \<Longrightarrow> length p \<le> length s"
  by (induction s p rule: startswith.induct) auto

lemma startswith_same_length: "length s \<le> length p \<Longrightarrow> startswith s p \<longleftrightarrow> s = p"
  by (induction s p rule: startswith.induct) auto

lemma str_in_length: "str_in sub s \<Longrightarrow> length sub \<le> length s"
  by (induction s) (auto dest: startswith_length)

lemma str_in_same_length: "length s \<le> length sub \<Longrightarrow> str_in sub s \<longleftrightarrow> sub = s"
proof (cases s)
  case Nil
  then show ?thesis by simp
next
  case (Cons c cs)
  assume l: "length s \<le> length sub"
  have "\<not> str_in sub cs" using l Cons str_in_length [of sub cs] by auto
  moreover have "startswith (c # cs) sub \<longleftrightarrow> c # cs = sub"
    using l Cons startswith_same_length [of "c # cs" sub] by simp
  ultimately show ?thesis using Cons by auto
qed

lemma str_in_prefix_matches:
  "str_in (lower macID) (lower (take (length macID) macAddr)) = prefix_matches macID macAddr"
  by (simp add: str_in_same_length length_lower prefix_matches_def)

subsection \<open>Blocks\<close>

lemma dict_contains_dict_set:
  "dict_contains k' (dict_set d k v) \<longleftrightarrow> k' = k \<or> dict_contains k' d"
  by (simp add: dict_contains_def map_of_dict_set)

lemma lookup2_dict_set:
  "lookup2 (dict_set retMap t inner) t' m =
     (if t' = t then map_of inner m else lookup2 retMap t' m)"
  by (simp add: lookup2_def map_of_dict_set)

lemma lookup2_new_category:
  "\<not> dict_contains t retMap \<Longrightarrow> lookup2 (dict_set retMap t []) t' m = lookup2 retMap t' m"
  by (auto simp: lookup2_def map_of_dict_set dict_contains_def)

lemma store_spec:
  assumes "dict_contains t retMap"
  shows "\<exists>retMap'. store retMap t m r = Inr retMap'
           \<and> (\<forall>t' m'. lookup2 retMap' t' m' =
                 (if t' = t \<and> m' = m then Some r else lookup2 retMap t' m'))
           \<and> (\<forall>t'. dict_contains t' retMap' = dict_contains t' retMap)"
proof -
  from assms obtain inner where i: "map_of retMap t = Some inner"
    by (auto simp: dict_contains_def)
  have "store retMap t m r = Inr (dict_set retMap t (dict_set inner m r))"
    using i by (simp add: store_def dict_get_def)
  moreover have "lookup2 (dict_set retMap t (dict_set inner m r)) t' m' =
                 (if t' = t \<and> m' = m then Some r else lookup2 retMap t' m')" for t' m'
    using i by (simp add: lookup2_dict_set map_of_dict_set) (simp add: lookup2_def)
  moreover have "dict_contains t' (dict_set retMap t (dict_set inner m r)) = dict_contains t' retMap"
    for t'
    using assms by (auto simp: dict_contains_dict_set)
  ultimately show ?thesis by simp
qed

lemma matchPrefixes_spec:
  assumes "dict_contains t retMap"
  shows "\<exists>retMap'. matchPrefixes macIDs t m r (retMap, found)
             = Inr (retMap', found \<or> (\<exists>macID \<in> set macIDs. prefix_matches macID m))
           \<and> (\<forall>t' m'. lookup2 retMap' t' m' =
                 (if (\<exists>macID \<in> set macIDs. prefix_matches macID m) \<and> t' = t \<and> m' = m
                  then Some r else lookup2 retMap t' m'))
           \<and> (\<forall>t'. dict_contains t' retMap' = dict_contains t' retMap)"
  using assms
proof (induction macIDs arbitrary: retMap found)
  case Nil
  then show ?case by simp
next
  case (Cons macID macIDs)
  show ?case
  proof (cases "prefix_matches macID m")
    case True
    from store_spec [OF Cons.prems, of m r] obtain retMap1 where
      s: "store retMap t m r = Inr retMap1"
      and l: "\<forall>t' m'. lookup2 retMap1 t' m' =
                (if t' = t \<and> m' = m then Some r else lookup2 retMap t' m')"
      and c: "\<forall>t'. dict_contains t' retMap1 = dict_contains t' retMap"
      by blast
    have c1: "dict_contains t retMap1" using c Cons.prems by simp
    from Cons.IH [OF c1, of True] obtain retMap' where
      m: "matchPrefixes macIDs t m r (retMap1, True) = Inr (retMap', True)"
      and l': "\<forall>t' m'. lookup2 retMap' t' m' =
                (if (\<exists>macID \<in> set macIDs. prefix_matches macID m) \<and> t' = t \<and> m' = m
                 then Some r else lookup2 retMap1 t' m')"
      and c': "\<forall>t'. dict_contains t' retMap' = dict_contains t' retMap1"
      by auto
    have "matchPrefixes (macID # macIDs) t m r (retMap, found) = Inr (retMap', True)"
      using True s m by (simp add: str_in_prefix_matches)
    then show ?thesis using True l l' c c' by auto
  next
    case False
    from Cons.IH [OF Cons.prems, of found] obtain retMap' where
      m: "matchPrefixes macIDs t m r (retMap, found)
            = Inr (retMap', found \<or> (\<exists>macID \<in> set macIDs. prefix_matches macID m))"
      and l': "\<forall>t' m'. lookup2 retMap' t' m' =
                (if (\<exists>macID \<in> set macIDs. prefix_matches macID m) \<and> t' = t \<and> m' = m
                 then Some r else lookup2 retMap t' m')"
      and c': "\<forall>t'. dict_contains t' retMap' = dict_contains t' retMap"
      by blast
    have "matchPrefixes (macID # macIDs) t m r (retMap, found)
            = Inr (retMap', found \<or> (\<exists>macID \<in> set macIDs. prefix_matches macID m))"
      using False m by (simp add: str_in_prefix_matches)
    then show ?thesis using False l' c' by auto
  qed
qed


lemma classifyLoop_spec:
  assumes "set ks \<subseteq> set (keys OUI_MAP)"
  shows "\<exists>retMap'. classifyLoop OUI_MAP ks m r (retMap, found)
             = Inr (retMap', found \<or> find (category_matches OUI_MAP m) ks \<noteq> None)
           \<and> (\<forall>t' m'. lookup2 retMap' t' m' =
                 (if \<not> found \<and> find (category_matches OUI_MAP m) ks = Some t' \<and> m' = m
                  then Some r else lookup2 retMap t' m'))
           \<and> (\<forall>t'. dict_contains t' retMap' = (dict_contains t' retMap \<or> t' \<in> set ks))"
  using assms
proof (induction ks arbitrary: retMap found)
  case Nil
  then show ?case by simp
next
  case (Cons k ks)
  let ?P = "category_matches OUI_MAP m"
  define retMap1 where
    "retMap1 = (if \<not> dict_contains k retMap then dict_set retMap k [] else retMap)"
  have l1: "lookup2 retMap1 t' m' = lookup2 retMap t' m'" for t' m'
    by (simp add: retMap1_def lookup2_new_category)
  have c1: "dict_contains t' retMap1 = (dict_contains t' retMap \<or> t' = k)" for t'
    by (auto simp: retMap1_def dict_contains_dict_set)
  have sub: "set ks \<subseteq> set (keys OUI_MAP)" using Cons.prems by simp
  show ?case
  proof (cases found)
    case True
    from Cons.IH [OF sub, of retMap1 True] obtain retMap' where
      a: "classifyLoop OUI_MAP ks m r (retMap1, True) = Inr (retMap', True)"
      and l: "\<forall>t' m'. lookup2 retMap' t' m' = lookup2 retMap1 t' m'"
      and c: "\<forall>t'. dict_contains t' retMap' = (dict_contains t' retMap1 \<or> t' \<in> set ks)"
      by auto
    have "classifyLoop OUI_MAP (k # ks) m r (retMap, found) = Inr (retMap', True)"
      using True a by (simp add: retMap1_def)
    then show ?thesis using True l c l1 c1 by auto
  next
    case False
    from Cons.prems obtain macIDs where o: "map_of OUI_MAP k = Some macIDs"
      using in_keys_map_of [of k OUI_MAP] by auto
    have pk: "?P k = (\<exists>macID \<in> set macIDs. prefix_matches macID m)"
      using o by (simp add: category_matches_def)
    have ck: "dict_contains k retMap1" using c1 by simp
    from matchPrefixes_spec [OF ck, of macIDs m r False] pk obtain retMap2 where
      b: "matchPrefixes macIDs k m r (retMap1, False) = Inr (retMap2, ?P k)"
      and l2: "\<forall>t' m'. lookup2 retMap2 t' m' =
                 (if ?P k \<and> t' = k \<and> m' = m then Some r else lookup2 retMap1 t' m')"
      and c2: "\<forall>t'. dict_contains t' retMap2 = dict_contains t' retMap1"
      by auto
    from Cons.IH [OF sub, of retMap2 "?P k"] obtain retMap' where
      a: "classifyLoop OUI_MAP ks m r (retMap2, ?P k) = Inr (retMap', ?P k \<or> find ?P ks \<noteq> None)"
      and l: "\<forall>t' m'. lookup2 retMap' t' m' =
                 (if \<not> ?P k \<and> find ?P ks = Some t' \<and> m' = m
                  then Some r else lookup2 retMap2 t' m')"
      and c: "\<forall>t'. dict_contains t' retMap' = (dict_contains t' retMap2 \<or> t' \<in> set ks)"
      by blast
    have step: "classifyLoop OUI_MAP (k # ks) m r (retMap, found)
                  = Inr (retMap', ?P k \<or> find ?P ks \<noteq> None)"
      using False o b a by (simp add: retMap1_def dict_get_def)
    have f: "(found \<or> find ?P (k # ks) \<noteq> None) = (?P k \<or> find ?P ks \<noteq> None)"
      using False by simp
    have l': "lookup2 retMap' t' m' =
                 (if \<not> found \<and> find ?P (k # ks) = Some t' \<and> m' = m
                  then Some r else lookup2 retMap t' m')" for t' m'
      using False l [rule_format, of t' m'] l2 [rule_format, of t' m'] l1 [of t' m']
      by (cases "?P k") auto
    have c': "dict_contains t' retMap' = (dict_contains t' retMap \<or> t' \<in> set (k # ks))" for t'
      using c c2 c1 by auto
    show ?thesis unfolding step f using l' c' by blast
  qed
qed

lemma classifyRecord_spec:
  assumes "dict_contains ''Other'' retMap" and "dict_contains ''All'' retMap"
  shows "\<exists>retMap'. classifyRecord OUI_MAP retMap r = Inr retMap'
           \<and> (\<forall>t' m'. lookup2 retMap' t' m' =
                 (if (t' = first_match OUI_MAP (lastKnownClientIdentifier r) \<or> t' = ''All'')
                     \<and> m' = lastKnownClientIdentifier r
                  then Some r else lookup2 retMap t' m'))
           \<and> (\<forall>t'. dict_contains t' retMap' = (dict_contains t' retMap \<or> t' \<in> set (keys OUI_MAP)))"
proof -
  let ?m = "lastKnownClientIdentifier r"
  let ?P = "category_matches OUI_MAP ?m"
  let ?f = "find ?P (keys OUI_MAP)"
  from classifyLoop_spec [OF subset_refl, of OUI_MAP ?m r retMap False] obtain retMap1 where
    a: "classifyLoop OUI_MAP (keys OUI_MAP) ?m r (retMap, False) = Inr (retMap1, ?f \<noteq> None)"
    and l1: "\<forall>t' m'. lookup2 retMap1 t' m' =
               (if ?f = Some t' \<and> m' = ?m then Some r else lookup2 retMap t' m')"
    and c1: "\<forall>t'. dict_contains t' retMap1 = (dict_contains t' retMap \<or> t' \<in> set (keys OUI_MAP))"
    by auto
  have o1: "dict_contains ''Other'' retMap1" and a1: "dict_contains ''All'' retMap1"
    using c1 assms by auto
  show ?thesis
  proof (cases ?f)
    case None
    from store_spec [OF o1, of ?m r] obtain retMap2 where
      s2: "store retMap1 ''Other'' ?m r = Inr retMap2"
      and l2: "\<forall>t' m'. lookup2 retMap2 t' m' =
                 (if t' = ''Other'' \<and> m' = ?m then Some r else lookup2 retMap1 t' m')"
      and c2: "\<forall>t'. dict_contains t' retMap2 = dict_contains t' retMap1"
      by blast
    have a2: "dict_contains ''All'' retMap2" using c2 a1 by simp
    from store_spec [OF a2, of ?m r] obtain retMap3 where
      s3: "store retMap2 ''All'' ?m r = Inr retMap3"
      and l3: "\<forall>t' m'. lookup2 retMap3 t' m' =
                 (if t' = ''All'' \<and> m' = ?m then Some r else lookup2 retMap2 t' m')"
      and c3: "\<forall>t'. dict_contains t' retMap3 = dict_contains t' retMap2"
      by blast
    have fm: "first_match OUI_MAP ?m = ''Other''" using None by (simp add: first_match_def)
    have "classifyRecord OUI_MAP retMap r = Inr retMap3"
      using a None s2 s3 by (simp add: classifyRecord_def)
    moreover have "lookup2 retMap3 t' m' =
                 (if (t' = first_match OUI_MAP ?m \<or> t' = ''All'') \<and> m' = ?m
                  then Some r else lookup2 retMap t' m')" for t' m'
      using l3 [rule_format, of t' m'] l2 [rule_format, of t' m'] l1 [rule_format, of t' m']
        None fm by auto
    moreover have "dict_contains t' retMap3 = (dict_contains t' retMap \<or> t' \<in> set (keys OUI_MAP))"
      for t'
      using c3 c2 c1 by simp
    ultimately show ?thesis by blast
  next
    case (Some t)
    from store_spec [OF a1, of ?m r] obtain retMap3 where
      s3: "store retMap1 ''All'' ?m r = Inr retMap3"
      and l3: "\<forall>t' m'. lookup2 retMap3 t' m' =
                 (if t' = ''All'' \<and> m' = ?m then Some r else lookup2 retMap1 t' m')"
      and c3: "\<forall>t'. dict_contains t' retMap3 = dict_contains t' retMap1"
      by blast
    have fm: "first_match OUI_MAP ?m = t" using Some by (simp add: first_match_def)
    have "classifyRecord OUI_MAP retMap r = Inr retMap3"
      using a Some s3 by (simp add: classifyRecord_def)
    moreover have "lookup2 retMap3 t' m' =
                 (if (t' = first_match OUI_MAP ?m \<or> t' = ''All'') \<and> m' = ?m
                  then Some r else lookup2 retMap t' m')" for t' m'
      using l3 [rule_format, of t' m'] l1 [rule_format, of t' m'] Some fm by auto
    moreover have "dict_contains t' retMap3 = (dict_contains t' retMap \<or> t' \<in> set (keys OUI_MAP))"
      for t'
      using c3 c1 by simp
    ultimately show ?thesis by blast
  qed
qed


lemma find_snoc:
  "find P (xs @ [x]) = (case find P xs of None \<Rightarrow> (if P x then Some x else None) | Some y \<Rightarrow> Some y)"
  by (induction xs) auto

lemma last_retained_Cons:
  "last_retained strptime checkDate (r # rs) m =
     (case last_retained strptime checkDate rs m of
        None \<Rightarrow> (if retained strptime checkDate r \<and> lastKnownClientIdentifier r = m
                   then Some r else None)
      | Some y \<Rightarrow> Some y)"
  by (simp add: last_retained_def find_snoc)

lemma processRecords_spec:
  assumes "dict_contains ''Other'' retMap" and "dict_contains ''All'' retMap"
    and "\<forall>r \<in> set rs. length (lastKnownClientIdentifier r) > 0 \<longrightarrow>
           (\<exists>lastSeen. strptime (lastSeenDate r) = Inr lastSeen)"
  shows "\<exists>retMap'. processRecords OUI_MAP strptime checkDate rs retMap = Inr retMap'
           \<and> (\<forall>t m. lookup2 retMap' t m =
                 (if t = first_match OUI_MAP m \<or> t = ''All''
                  then (case last_retained strptime checkDate rs m of
                          None \<Rightarrow> lookup2 retMap t m
                        | Some r \<Rightarrow> Some r)
                  else lookup2 retMap t m))
           \<and> (\<forall>t. dict_contains t retMap' =
                 (dict_contains t retMap
                  \<or> (t \<in> set (keys OUI_MAP) \<and> (\<exists>r \<in> set rs. retained strptime checkDate r))))"
  using assms
proof (induction rs arbitrary: retMap)
  case Nil
  then show ?case by (simp add: last_retained_def)
next
  case (Cons r rs)
  let ?m = "lastKnownClientIdentifier r"
  have ok: "\<forall>r \<in> set rs. length (lastKnownClientIdentifier r) > 0 \<longrightarrow>
              (\<exists>lastSeen. strptime (lastSeenDate r) = Inr lastSeen)"
    using Cons.prems(3) by simp
  show ?case
  proof (cases "retained strptime checkDate r")
    case True
    then obtain lastSeen where
      p: "length ?m > 0" "strptime (lastSeenDate r) = Inr lastSeen" "datetime_gt lastSeen checkDate"
      by (auto simp: retained_def split: sum.splits)
    from classifyRecord_spec [OF Cons.prems(1,2), of OUI_MAP r] obtain retMap1 where
      a: "classifyRecord OUI_MAP retMap r = Inr retMap1"
      and l1: "\<forall>t' m'. lookup2 retMap1 t' m' =
                 (if (t' = first_match OUI_MAP ?m \<or> t' = ''All'') \<and> m' = ?m
                  then Some r else lookup2 retMap t' m')"
      and c1: "\<forall>t'. dict_contains t' retMap1 = (dict_contains t' retMap \<or> t' \<in> set (keys OUI_MAP))"
      by blast
    have o1: "dict_contains ''Other'' retMap1" and a1: "dict_contains ''All'' retMap1"
      using c1 Cons.prems(1,2) by auto
    from Cons.IH [OF o1 a1 ok] obtain retMap' where
      b: "processRecords OUI_MAP strptime checkDate rs retMap1 = Inr retMap'"
      and l: "\<forall>t m. lookup2 retMap' t m =
                 (if t = first_match OUI_MAP m \<or> t = ''All''
                  then (case last_retained strptime checkDate rs m of
                          None \<Rightarrow> lookup2 retMap1 t m
                        | Some r \<Rightarrow> Some r)
                  else lookup2 retMap1 t m)"
      and c: "\<forall>t. dict_contains t retMap' =
                 (dict_contains t retMap1
                  \<or> (t \<in> set (keys OUI_MAP) \<and> (\<exists>r \<in> set rs. retained strptime checkDate r)))"
      by blast
    have step: "processRecords OUI_MAP strptime checkDate (r # rs) retMap = Inr retMap'"
      using p a b by simp
    have l': "lookup2 retMap' t m =
                 (if t = first_match OUI_MAP m \<or> t = ''All''
                  then (case last_retained strptime checkDate (r # rs) m of
                          None \<Rightarrow> lookup2 retMap t m
                        | Some r \<Rightarrow> Some r)
                  else lookup2 retMap t m)" for t m
      using l [rule_format, of t m] l1 [rule_format, of t m] True
      by (auto simp: last_retained_Cons split: option.splits)
    have c': "dict_contains t retMap' =
                 (dict_contains t retMap
                  \<or> (t \<in> set (keys OUI_MAP) \<and> (\<exists>r \<in> set (r # rs). retained strptime checkDate r)))"
      for t
      using c c1 True by auto
    show ?thesis unfolding step using l' c' by blast
  next
    case False
    from Cons.IH [OF Cons.prems(1,2) ok] obtain retMap' where
      b: "processRecords OUI_MAP strptime checkDate rs retMap = Inr retMap'"
      and l: "\<forall>t m. lookup2 retMap' t m =
                 (if t = first_match OUI_MAP m \<or> t = ''All''
                  then (case last_retained strptime checkDate rs m of
                          None \<Rightarrow> lookup2 retMap t m
                        | Some r \<Rightarrow> Some r)
                  else lookup2 retMap t m)"
      and c: "\<forall>t. dict_contains t retMap' =
                 (dict_contains t retMap
                  \<or> (t \<in> set (keys OUI_MAP) \<and> (\<exists>r \<in> set rs. retained strptime checkDate r)))"
      by blast
    have step: "processRecords OUI_MAP strptime checkDate (r # rs) retMap = Inr retMap'"
      using False b Cons.prems(3) by (auto simp: retained_def split: sum.splits)
    have l': "lookup2 retMap' t m =
                 (if t = first_match OUI_MAP m \<or> t = ''All''
                  then (case last_retained strptime checkDate (r # rs) m of
                          None \<Rightarrow> lookup2 retMap t m
                        | Some r \<Rightarrow> Some r)
                  else lookup2 retMap t m)" for t m
      using l [rule_format, of t m] False
      by (auto simp: last_retained_Cons split: option.splits)
    have c': "dict_contains t retMap' =
                 (dict_contains t retMap
                  \<or> (t \<in> set (keys OUI_MAP) \<and> (\<exists>r \<in> set (r # rs). retained strptime checkDate r)))"
      for t
      using c False by auto
    show ?thesis unfolding step using l' c' by blast
  qed
qed

lemma processRecords_parsed:
  assumes "processRecords OUI_MAP strptime checkDate rs retMap = Inr retMap'"
  shows "\<forall>r \<in> set rs. length (lastKnownClientIdentifier r) > 0 \<longrightarrow>
           (\<exists>lastSeen. strptime (lastSeenDate r) = Inr lastSeen)"
  using assms
proof (induction rs arbitrary: retMap)
  case Nil
  then show ?case by simp
next
  case (Cons r rs)
  then show ?case
    by (auto split: if_splits sum.splits)
qed


lemma processRecords_none:
  assumes "\<forall>r \<in> set rs. length (lastKnownClientIdentifier r) = 0
             \<or> (\<exists>lastSeen. strptime (lastSeenDate r) = Inr lastSeen
                   \<and> \<not> datetime_gt lastSeen checkDate)"
  shows "processRecords OUI_MAP strptime checkDate rs retMap = Inr retMap"
  using assms by (induction rs) auto

lemma initial_block:
  "dict_set (dict_set [] ''Other'' []) ''All'' [] = [(''Other'', []), (''All'', [])]"
  by (simp add: dict_set_def)

lemma minus_12_months_Inr:
  "minus_12_months now = Inr checkDate \<longleftrightarrow>
     1 < year now
     \<and> checkDate = now\<lparr>year := year now - 1,
                       day := min (monthrange (year now - 1) (month now)) (day now)\<rparr>"
  by (auto simp: minus_12_months_def)

lemma getInfoBlockForNetwork_records:
  "getInfoBlockForNetwork OUI_MAP strptime now (Inr (Some rangeRef)) (Inr rs) =
     (case minus_12_months now of
        Inl e \<Rightarrow> Inl e
      | Inr checkDate \<Rightarrow>
          processRecords OUI_MAP strptime checkDate rs [(''Other'', []), (''All'', [])])"
  by (simp add: getInfoBlockForNetwork_def initial_block split: sum.splits)

lemma getInfoBlockForNetwork_spec:
  assumes "minus_12_months now = Inr checkDate"
    and "\<forall>r \<in> set rs. length (lastKnownClientIdentifier r) > 0 \<longrightarrow>
           (\<exists>lastSeen. strptime (lastSeenDate r) = Inr lastSeen)"
  shows "\<exists>retMap. getInfoBlockForNetwork OUI_MAP strptime now (Inr (Some rangeRef)) (Inr rs)
             = Inr retMap
           \<and> (\<forall>t m. lookup2 retMap t m =
                 (if t = first_match OUI_MAP m \<or> t = ''All''
                  then last_retained strptime checkDate rs m else None))
           \<and> (\<forall>t. dict_contains t retMap =
                 (t = ''Other'' \<or> t = ''All''
                  \<or> (t \<in> set (keys OUI_MAP) \<and> (\<exists>r \<in> set rs. retained strptime checkDate r))))"
proof -
  let ?init = "[(''Other'', []), (''All'', [])] :: info_block"
  have o: "dict_contains ''Other'' ?init" and a: "dict_contains ''All'' ?init"
    by (simp_all add: dict_contains_def)
  have l0: "lookup2 ?init t m = None" for t m by (simp add: lookup2_def)
  have c0: "dict_contains t ?init = (t = ''Other'' \<or> t = ''All'')" for t
    by (auto simp: dict_contains_def)
  from processRecords_spec [OF o a assms(2), of OUI_MAP checkDate] obtain retMap where
    b: "processRecords OUI_MAP strptime checkDate rs ?init = Inr retMap"
    and l: "\<forall>t m. lookup2 retMap t m =
                 (if t = first_match OUI_MAP m \<or> t = ''All''
                  then (case last_retained strptime checkDate rs m of
                          None \<Rightarrow> lookup2 ?init t m
                        | Some r \<Rightarrow> Some r)
                  else lookup2 ?init t m)"
    and c: "\<forall>t. dict_contains t retMap =
                 (dict_contains t ?init
                  \<or> (t \<in> set (keys OUI_MAP) \<and> (\<exists>r \<in> set rs. retained strptime checkDate r)))"
    by blast
  have "getInfoBlockForNetwork OUI_MAP strptime now (Inr (Some rangeRef)) (Inr rs) = Inr retMap"
    using assms(1) b by (simp add: getInfoBlockForNetwork_records)
  moreover have "lookup2 retMap t m =
                 (if t = first_match OUI_MAP m \<or> t = ''All''
                  then last_retained strptime checkDate rs m else None)" for t m
    using l [rule_format, of t m] by (simp add: l0 split: option.splits)
  moreover have "dict_contains t retMap =
                 (t = ''Other'' \<or> t = ''All''
                  \<or> (t \<in> set (keys OUI_MAP) \<and> (\<exists>r \<in> set rs. retained strptime checkDate r)))" for t
    using c [rule_format, of t] by (auto simp: c0)
  ultimately show ?thesis by blast
qed

lemma getInfoBlockForNetwork_returned:
  assumes "getInfoBlockForNetwork OUI_MAP strptime now (Inr (Some rangeRef)) (Inr rs) = Inr retMap"
  shows "\<exists>checkDate. minus_12_months now = Inr checkDate
           \<and> (\<forall>t m. lookup2 retMap t m =
                 (if t = first_match OUI_MAP m \<or> t = ''All''
                  then last_retained strptime checkDate rs m else None))
           \<and> (\<forall>t. dict_contains t retMap =
                 (t = ''Other'' \<or> t = ''All''
                  \<or> (t \<in> set (keys OUI_MAP) \<and> (\<exists>r \<in> set rs. retained strptime checkDate r))))"
proof -
  from assms obtain checkDate where
    m: "minus_12_months now = Inr checkDate"
    and b: "processRecords OUI_MAP strptime checkDate rs [(''Other'', []), (''All'', [])] = Inr retMap"
    by (auto simp: getInfoBlockForNetwork_records split: sum.splits)
  from getInfoBlockForNetwork_spec [OF m processRecords_parsed [OF b], of OUI_MAP rangeRef] assms m
  show ?thesis by auto
qed

lemma find_SomeD: "find P xs = Some x \<Longrightarrow> x \<in> set xs \<and> P x"
  by (induction xs) (auto split: if_splits)

lemma last_retained_Some:
  "last_retained strptime checkDate rs m = Some r \<Longrightarrow>
     r \<in> set rs \<and> retained strptime checkDate r \<and> lastKnownClientIdentifier r = m"
  by (auto simp: last_retained_def dest: find_SomeD)

lemma last_retained_None:
  "last_retained strptime checkDate rs m = None \<longleftrightarrow>
     \<not> (\<exists>r \<in> set rs. retained strptime checkDate r \<and> lastKnownClientIdentifier r = m)"
  by (auto simp: last_retained_def find_None_iff)

lemma lex_less_irrefl: "\<not> lex_less xs xs"
  by (induction xs) auto

lemma datetime_gt_irrefl: "\<not> datetime_gt d d"
  by (simp add: datetime_gt_def lex_less_irrefl)

lemma datetime_gt_next_second: "datetime_gt (d\<lparr>second := second d + 1\<rparr>) d"
  by (simp add: datetime_gt_def datetime_fields_def)

subsection \<open>The boundary of the time window\<close>

text \<open>
  Twelve calendar months are not 365 days: from the last day of a leap year the
  boundary lies 366 days back, and a leap day is moved to the 28th. In year 1 there is
  no boundary.
\<close>

lemma minus_12_months_leap_day:
  "minus_12_months
     \<lparr>year = 2024, month = 2, day = 29, hour = 8, minute = 30, second = 0, microsecond = 250\<rparr>
   = Inr \<lparr>year = 2023, month = 2, day = 28, hour = 8, minute = 30, second = 0,
           microsecond = 250\<rparr>"
  by (simp add: minus_12_months_def monthrange_def isleap_def)

lemma minus_12_months_across_leap_year:
  "minus_12_months
     \<lparr>year = 2024, month = 12, day = 31, hour = 0, minute = 0, second = 0, microsecond = 0\<rparr>
   = Inr \<lparr>year = 2023, month = 12, day = 31, hour = 0, minute = 0, second = 0,
           microsecond = 0\<rparr>"
  by (simp add: minus_12_months_def monthrange_def)

lemma minus_12_months_year_one:
  "minus_12_months
     \<lparr>year = 1, month = 1, day = 1, hour = 0, minute = 0, second = 0, microsecond = 0\<rparr>
   = Inl ValueError"
  by (simp add: minus_12_months_def)

lemma retained_iff:
  "retained strptime checkDate r \<longleftrightarrow>
     length (lastKnownClientIdentifier r) > 0
     \<and> (\<exists>lastSeen. strptime (lastSeenDate r) = Inr lastSeen \<and> datetime_gt lastSeen checkDate)"
  by (cases "strptime (lastSeenDate r)") (auto simp: retained_def)

subsection \<open>The claims on classification\<close>

text \<open>
  C5: take a record of a network whose block is returned, and let it pass both tests
  of the loop (it names an address and is recent enough). Then its address is stored
  under the first matching category of the OUI table, or under \<^verbatim>\<open>Other\<close> when no
  category matches, and under \<^verbatim>\<open>All\<close>, and under no other category. What is stored
  there is a retained record with that address, and the record itself when no
  other record of the network carries its address.
\<close>

theorem classified_once:
  assumes "getInfoBlockForNetwork OUI_MAP strptime now (Inr (Some rangeRef)) (Inr ipamRecords)
             = Inr retMap"
    and "minus_12_months now = Inr checkDate"
    and "record \<in> set ipamRecords"
    and "retained strptime checkDate record"
  shows "\<exists>stored.
           lookup2 retMap (first_match OUI_MAP (lastKnownClientIdentifier record))
             (lastKnownClientIdentifier record) = Some stored
         \<and> lookup2 retMap ''All'' (lastKnownClientIdentifier record) = Some stored
         \<and> stored \<in> set ipamRecords
         \<and> retained strptime checkDate stored
         \<and> lastKnownClientIdentifier stored = lastKnownClientIdentifier record
         \<and> ((\<forall>other \<in> set ipamRecords.
                lastKnownClientIdentifier other = lastKnownClientIdentifier record
                \<longrightarrow> other = record) \<longrightarrow> stored = record)
         \<and> (\<forall>ouiType. lookup2 retMap ouiType (lastKnownClientIdentifier record) \<noteq> None
                \<longrightarrow> ouiType = first_match OUI_MAP (lastKnownClientIdentifier record)
                    \<or> ouiType = ''All'')"
proof -
  let ?m = "lastKnownClientIdentifier record"
  from getInfoBlockForNetwork_returned [OF assms(1)] assms(2)
  have l: "\<forall>t m. lookup2 retMap t m =
             (if t = first_match OUI_MAP m \<or> t = ''All''
              then last_retained strptime checkDate ipamRecords m else None)"
    by auto
  have "last_retained strptime checkDate ipamRecords ?m \<noteq> None"
    using assms(3,4) by (auto simp: last_retained_None)
  then obtain stored where s: "last_retained strptime checkDate ipamRecords ?m = Some stored"
    by auto
  note p = last_retained_Some [OF s]
  have "lookup2 retMap (first_match OUI_MAP ?m) ?m = Some stored"
    and "lookup2 retMap ''All'' ?m = Some stored"
    using l s by simp_all
  moreover have "(\<forall>other \<in> set ipamRecords.
                lastKnownClientIdentifier other = ?m \<longrightarrow> other = record) \<longrightarrow> stored = record"
    using p by auto
  moreover have "\<forall>ouiType. lookup2 retMap ouiType ?m \<noteq> None
                \<longrightarrow> ouiType = first_match OUI_MAP ?m \<or> ouiType = ''All''"
    using l by (auto split: if_splits)
  ultimately show ?thesis using p by blast
qed

theorem classified_once_witness:
  "getInfoBlockForNetwork example_OUI_MAP example_strptime example_now
         (Inr (Some ''Ranges/17'')) (Inr example_records)
       = Inr [(''Other'',
               [(''de:ad:be:ef:00:01'',
                 \<lparr>lastKnownClientIdentifier = ''de:ad:be:ef:00:01'',
                  lastSeenDate = ''May 01, 2024 10:00:00''\<rparr>)]),
              (''All'',
               [(''00:0c:29:AA:BB:CC'',
                 \<lparr>lastKnownClientIdentifier = ''00:0c:29:AA:BB:CC'',
                  lastSeenDate = ''May 01, 2024 10:00:00''\<rparr>),
                (''aa:bb:01:02:03:04'',
                 \<lparr>lastKnownClientIdentifier = ''aa:bb:01:02:03:04'',
                  lastSeenDate = ''Jun 29, 2023 01:02:04''\<rparr>),
                (''de:ad:be:ef:00:01'',
                 \<lparr>lastKnownClientIdentifier = ''de:ad:be:ef:00:01'',
                  lastSeenDate = ''May 01, 2024 10:00:00''\<rparr>)]),
              (''VM'',
               [(''00:0c:29:AA:BB:CC'',
                 \<lparr>lastKnownClientIdentifier = ''00:0c:29:AA:BB:CC'',
                  lastSeenDate = ''May 01, 2024 10:00:00''\<rparr>)]),
              (''PDU'',
               [(''aa:bb:01:02:03:04'',
                 \<lparr>lastKnownClientIdentifier = ''aa:bb:01:02:03:04'',
                  lastSeenDate = ''Jun 29, 2023 01:02:04''\<rparr>)])]
   \<and> minus_12_months example_now = Inr example_checkDate
   \<and> \<lparr>lastKnownClientIdentifier = ''00:0c:29:AA:BB:CC'',
       lastSeenDate = ''May 01, 2024 10:00:00''\<rparr> \<in> set example_records
   \<and> retained example_strptime example_checkDate
        \<lparr>lastKnownClientIdentifier = ''00:0c:29:AA:BB:CC'',
         lastSeenDate = ''May 01, 2024 10:00:00''\<rparr>
   \<and> first_match example_OUI_MAP ''00:0c:29:AA:BB:CC'' = ''VM''
   \<and> lookup2
         [(''Other'',
               [(''de:ad:be:ef:00:01'',
                 \<lparr>lastKnownClientIdentifier = ''de:ad:be:ef:00:01'',
                  lastSeenDate = ''May 01, 2024 10:00:00''\<rparr>)]),
              (''All'',
               [(''00:0c:29:AA:BB:CC'',
                 \<lparr>lastKnownClientIdentifier = ''00:0c:29:AA:BB:CC'',
                  lastSeenDate = ''May 01, 2024 10:00:00''\<rparr>),
                (''aa:bb:01:02:03:04'',
                 \<lparr>lastKnownClientIdentifier = ''aa:bb:01:02:03:04'',
                  lastSeenDate = ''Jun 29, 2023 01:02:04''\<rparr>),
                (''de:ad:be:ef:00:01'',
                 \<lparr>lastKnownClientIdentifier = ''de:ad:be:ef:00:01'',
                  lastSeenDate = ''May 01, 2024 10:00:00''\<rparr>)]),
              (''VM'',
               [(''00:0c:29:AA:BB:CC'',
                 \<lparr>lastKnownClientIdentifier = ''00:0c:29:AA:BB:CC'',
                  lastSeenDate = ''May 01, 2024 10:00:00''\<rparr>)]),
              (''PDU'',
               [(''aa:bb:01:02:03:04'',
                 \<lparr>lastKnownClientIdentifier = ''aa:bb:01:02:03:04'',
                  lastSeenDate = ''Jun 29, 2023 01:02:04''\<rparr>)])]
         ''VM'' ''00:0c:29:AA:BB:CC''
       = Some \<lparr>lastKnownClientIdentifier = ''00:0c:29:AA:BB:CC'',
               lastSeenDate = ''May 01, 2024 10:00:00''\<rparr>
   \<and> lookup2
         [(''Other'',
               [(''de:ad:be:ef:00:01'',
                 \<lparr>lastKnownClientIdentifier = ''de:ad:be:ef:00:01'',
                  lastSeenDate = ''May 01, 2024 10:00:00''\<rparr>)]),
              (''All'',
               [(''00:0c:29:AA:BB:CC'',
                 \<lparr>lastKnownClientIdentifier = ''00:0c:29:AA:BB:CC'',
                  lastSeenDate = ''May 01, 2024 10:00:00''\<rparr>),
                (''aa:bb:01:02:03:04'',
                 \<lparr>lastKnownClientIdentifier = ''aa:bb:01:02:03:04'',
                  lastSeenDate = ''Jun 29, 2023 01:02:04''\<rparr>),
                (''de:ad:be:ef:00:01'',
                 \<lparr>lastKnownClientIdentifier = ''de:ad:be:ef:00:01'',
                  lastSeenDate = ''May 01, 2024 10:00:00''\<rparr>)]),
              (''VM'',
               [(''00:0c:29:AA:BB:CC'',
                 \<lparr>lastKnownClientIdentifier = ''00:0c:29:AA:BB:CC'',
                  lastSeenDate = ''May 01, 2024 10:00:00''\<rparr>)]),
              (''PDU'',
               [(''aa:bb:01:02:03:04'',
                 \<lparr>lastKnownClientIdentifier = ''aa:bb:01:02:03:04'',
                  lastSeenDate = ''Jun 29, 2023 01:02:04''\<rparr>)])]
         ''Other'' ''00:0c:29:AA:BB:CC'' = None
   \<and> lookup2
         [(''Other'',
               [(''de:ad:be:ef:00:01'',
                 \<lparr>lastKnownClientIdentifier = ''de:ad:be:ef:00:01'',
                  lastSeenDate = ''May 01, 2024 10:00:00''\<rparr>)]),
              (''All'',
               [(''00:0c:29:AA:BB:CC'',
                 \<lparr>lastKnownClientIdentifier = ''00:0c:29:AA:BB:CC'',
                  lastSeenDate = ''May 01, 2024 10:00:00''\<rparr>),
                (''aa:bb:01:02:03:04'',
                 \<lparr>lastKnownClientIdentifier = ''aa:bb:01:02:03:04'',
                  lastSeenDate = ''Jun 29, 2023 01:02:04''\<rparr>),
                (''de:ad:be:ef:00:01'',
                 \<lparr>lastKnownClientIdentifier = ''de:ad:be:ef:00:01'',
                  lastSeenDate = ''May 01, 2024 10:00:00''\<rparr>)]),
              (''VM'',
               [(''00:0c:29:AA:BB:CC'',
                 \<lparr>lastKnownClientIdentifier = ''00:0c:29:AA:BB:CC'',
                  lastSeenDate = ''May 01, 2024 10:00:00''\<rparr>)]),
              (''PDU'',
               [(''aa:bb:01:02:03:04'',
                 \<lparr>lastKnownClientIdentifier = ''aa:bb:01:02:03:04'',
                  lastSeenDate = ''Jun 29, 2023 01:02:04''\<rparr>)])]
         ''PDU'' ''00:0c:29:AA:BB:CC'' = None"
proof -
  let ?rec = "\<lparr>lastKnownClientIdentifier = ''00:0c:29:AA:BB:CC'',
                   lastSeenDate = ''May 01, 2024 10:00:00''\<rparr>"
  let ?retMap = "[(''Other'',
               [(''de:ad:be:ef:00:01'',
                 \<lparr>lastKnownClientIdentifier = ''de:ad:be:ef:00:01'',
                  lastSeenDate = ''May 01, 2024 10:00:00''\<rparr>)]),
              (''All'',
               [(''00:0c:29:AA:BB:CC'',
                 \<lparr>lastKnownClientIdentifier = ''00:0c:29:AA:BB:CC'',
                  lastSeenDate = ''May 01, 2024 10:00:00''\<rparr>),
                (''aa:bb:01:02:03:04'',
                 \<lparr>lastKnownClientIdentifier = ''aa:bb:01:02:03:04'',
                  lastSeenDate = ''Jun 29, 2023 01:02:04''\<rparr>),
                (''de:ad:be:ef:00:01'',
                 \<lparr>lastKnownClientIdentifier = ''de:ad:be:ef:00:01'',
                  lastSeenDate = ''May 01, 2024 10:00:00''\<rparr>)]),
              (''VM'',
               [(''00:0c:29:AA:BB:CC'',
                 \<lparr>lastKnownClientIdentifier = ''00:0c:29:AA:BB:CC'',
                  lastSeenDate = ''May 01, 2024 10:00:00''\<rparr>)]),
              (''PDU'',
               [(''aa:bb:01:02:03:04'',
                 \<lparr>lastKnownClientIdentifier = ''aa:bb:01:02:03:04'',
                  lastSeenDate = ''Jun 29, 2023 01:02:04''\<rparr>)])]"
  have h1: "getInfoBlockForNetwork example_OUI_MAP example_strptime example_now
              (Inr (Some ''Ranges/17'')) (Inr example_records) = Inr ?retMap"
    by code_simp
  have h2: "minus_12_months example_now = Inr example_checkDate" by code_simp
  have h3: "?rec \<in> set example_records" by (simp add: example_records_def)
  have h4: "retained example_strptime example_checkDate ?rec" by code_simp
  have fm: "first_match example_OUI_MAP ''00:0c:29:AA:BB:CC'' = ''VM''" by code_simp
  from classified_once [OF h1 h2 h3 h4]
  have "\<forall>ouiType. lookup2 ?retMap ouiType (lastKnownClientIdentifier ?rec) \<noteq> None
          \<longrightarrow> ouiType = first_match example_OUI_MAP (lastKnownClientIdentifier ?rec)
              \<or> ouiType = ''All''"
    by (elim exE conjE)
  then have c: "\<forall>ouiType. lookup2 ?retMap ouiType ''00:0c:29:AA:BB:CC'' \<noteq> None
          \<longrightarrow> ouiType = ''VM'' \<or> ouiType = ''All''"
    by (simp add: fm)
  have vm: "lookup2 ?retMap ''VM'' ''00:0c:29:AA:BB:CC'' = Some ?rec"
    by (simp add: lookup2_def)
  have other: "lookup2 ?retMap ''Other'' ''00:0c:29:AA:BB:CC'' = None"
    using c [THEN spec, of "''Other''"] by simp
  have pdu: "lookup2 ?retMap ''PDU'' ''00:0c:29:AA:BB:CC'' = None"
    using c [THEN spec, of "''PDU''"] by simp
  show ?thesis
    by (intro conjI) (rule h1 h2 h3 h4 fm vm other pdu)+
qed

text \<open>
  C6: in the block returned for a network, an address is under \<^verbatim>\<open>All\<close> exactly when
  one of the records naming it has a parsed date strictly later than the clock
  reading moved back twelve calendar months: the year before, the same month, the day
  cut to that month's length, the same time of day. A date equal to that boundary
  does not pass; one second later does.
\<close>

theorem time_window_filter:
  assumes "getInfoBlockForNetwork OUI_MAP strptime now (Inr (Some rangeRef)) (Inr ipamRecords)
             = Inr retMap"
  shows "let checkDate = now\<lparr>year := year now - 1,
                             day := min (monthrange (year now - 1) (month now)) (day now)\<rparr>
         in (\<forall>macAddr. lookup2 retMap ''All'' macAddr \<noteq> None \<longleftrightarrow>
               (\<exists>record \<in> set ipamRecords.
                   lastKnownClientIdentifier record = macAddr \<and> length macAddr > 0
                   \<and> (\<exists>lastSeen. strptime (lastSeenDate record) = Inr lastSeen
                         \<and> datetime_gt lastSeen checkDate)))
          \<and> (\<forall>macAddr. (\<forall>record \<in> set ipamRecords.
                           lastKnownClientIdentifier record = macAddr
                           \<longrightarrow> strptime (lastSeenDate record) = Inr checkDate)
                \<longrightarrow> lookup2 retMap ''All'' macAddr = None)
          \<and> (\<forall>record \<in> set ipamRecords.
                length (lastKnownClientIdentifier record) > 0
                \<and> strptime (lastSeenDate record)
                    = Inr (checkDate\<lparr>second := second checkDate + 1\<rparr>)
                \<longrightarrow> lookup2 retMap ''All'' (lastKnownClientIdentifier record) \<noteq> None)"
proof -
  define checkDate where
    "checkDate = now\<lparr>year := year now - 1,
                      day := min (monthrange (year now - 1) (month now)) (day now)\<rparr>"
  from getInfoBlockForNetwork_returned [OF assms]
  have l: "\<forall>t m. lookup2 retMap t m =
             (if t = first_match OUI_MAP m \<or> t = ''All''
              then last_retained strptime checkDate ipamRecords m else None)"
    by (auto simp: minus_12_months_Inr checkDate_def)
  have a: "lookup2 retMap ''All'' m \<noteq> None \<longleftrightarrow>
             (\<exists>r \<in> set ipamRecords. retained strptime checkDate r \<and> lastKnownClientIdentifier r = m)"
    for m
    using l by (simp add: last_retained_None)
  have c1: "lookup2 retMap ''All'' macAddr \<noteq> None \<longleftrightarrow>
               (\<exists>record \<in> set ipamRecords.
                   lastKnownClientIdentifier record = macAddr \<and> length macAddr > 0
                   \<and> (\<exists>lastSeen. strptime (lastSeenDate record) = Inr lastSeen
                         \<and> datetime_gt lastSeen checkDate))" for macAddr
    unfolding a retained_iff by blast
  have c2: "lookup2 retMap ''All'' macAddr = None"
    if "\<forall>record \<in> set ipamRecords. lastKnownClientIdentifier record = macAddr
           \<longrightarrow> strptime (lastSeenDate record) = Inr checkDate" for macAddr
  proof -
    have "\<not> (\<exists>r \<in> set ipamRecords. retained strptime checkDate r \<and> lastKnownClientIdentifier r = macAddr)"
      using that by (auto simp: retained_def datetime_gt_irrefl)
    then show ?thesis using a [of macAddr] by blast
  qed
  have c3: "lookup2 retMap ''All'' (lastKnownClientIdentifier r) \<noteq> None"
    if "r \<in> set ipamRecords" and "length (lastKnownClientIdentifier r) > 0"
      and "strptime (lastSeenDate r) = Inr (checkDate\<lparr>second := second checkDate + 1\<rparr>)"
    for r
  proof -
    have "retained strptime checkDate r"
      using that(2,3) datetime_gt_next_second [of checkDate] by (simp add: retained_def)
    then show ?thesis using a [of "lastKnownClientIdentifier r"] that(1) by blast
  qed
  show ?thesis
    unfolding Let_def checkDate_def [symmetric] using c1 c2 c3 by blast
qed

theorem time_window_filter_witness:
  "getInfoBlockForNetwork example_OUI_MAP example_strptime example_now
         (Inr (Some ''Ranges/17''))
         (Inr [\<lparr>lastKnownClientIdentifier = ''12:34:56:78:9a:bc'',
                 lastSeenDate = ''Jun 29, 2023 01:02:03''\<rparr>,
               \<lparr>lastKnownClientIdentifier = ''aa:bb:01:02:03:04'',
                 lastSeenDate = ''Jun 29, 2023 01:02:04''\<rparr>])
       = Inr [(''Other'', []),
              (''All'',
               [(''aa:bb:01:02:03:04'',
                 \<lparr>lastKnownClientIdentifier = ''aa:bb:01:02:03:04'',
                  lastSeenDate = ''Jun 29, 2023 01:02:04''\<rparr>)]),
              (''VM'', []),
              (''PDU'',
               [(''aa:bb:01:02:03:04'',
                 \<lparr>lastKnownClientIdentifier = ''aa:bb:01:02:03:04'',
                  lastSeenDate = ''Jun 29, 2023 01:02:04''\<rparr>)])]
   \<and> example_strptime ''Jun 29, 2023 01:02:03''
       = Inr (example_now\<lparr>year := 2023, day := 29\<rparr>)
   \<and> example_strptime ''Jun 29, 2023 01:02:04''
       = Inr (example_now\<lparr>year := 2023, day := 29, second := 4\<rparr>)
   \<and> lookup2
         [(''Other'', []),
              (''All'',
               [(''aa:bb:01:02:03:04'',
                 \<lparr>lastKnownClientIdentifier = ''aa:bb:01:02:03:04'',
                  lastSeenDate = ''Jun 29, 2023 01:02:04''\<rparr>)]),
              (''VM'', []),
              (''PDU'',
               [(''aa:bb:01:02:03:04'',
                 \<lparr>lastKnownClientIdentifier = ''aa:bb:01:02:03:04'',
                  lastSeenDate = ''Jun 29, 2023 01:02:04''\<rparr>)])]
         ''All'' ''12:34:56:78:9a:bc'' = None
   \<and> lookup2
         [(''Other'', []),
              (''All'',
               [(''aa:bb:01:02:03:04'',
                 \<lparr>lastKnownClientIdentifier = ''aa:bb:01:02:03:04'',
                  lastSeenDate = ''Jun 29, 2023 01:02:04''\<rparr>)]),
              (''VM'', []),
              (''PDU'',
               [(''aa:bb:01:02:03:04'',
                 \<lparr>lastKnownClientIdentifier = ''aa:bb:01:02:03:04'',
                  lastSeenDate = ''Jun 29, 2023 01:02:04''\<rparr>)])]
         ''All'' ''aa:bb:01:02:03:04'' \<noteq> None"
proof -
  let ?retMap = "[(''Other'', []),
              (''All'',
               [(''aa:bb:01:02:03:04'',
                 \<lparr>lastKnownClientIdentifier = ''aa:bb:01:02:03:04'',
                  lastSeenDate = ''Jun 29, 2023 01:02:04''\<rparr>)]),
              (''VM'', []),
              (''PDU'',
               [(''aa:bb:01:02:03:04'',
                 \<lparr>lastKnownClientIdentifier = ''aa:bb:01:02:03:04'',
                  lastSeenDate = ''Jun 29, 2023 01:02:04''\<rparr>)])]"
  have h: "getInfoBlockForNetwork example_OUI_MAP example_strptime example_now
         (Inr (Some ''Ranges/17''))
         (Inr [\<lparr>lastKnownClientIdentifier = ''12:34:56:78:9a:bc'',
                 lastSeenDate = ''Jun 29, 2023 01:02:03''\<rparr>,
               \<lparr>lastKnownClientIdentifier = ''aa:bb:01:02:03:04'',
                 lastSeenDate = ''Jun 29, 2023 01:02:04''\<rparr>]) = Inr ?retMap"
    by code_simp
  have p1: "example_strptime ''Jun 29, 2023 01:02:03''
              = Inr (example_now\<lparr>year := 2023, day := 29\<rparr>)"
    by (simp add: example_strptime_def example_now_def)
  have p2: "example_strptime ''Jun 29, 2023 01:02:04''
              = Inr (example_now\<lparr>year := 2023, day := 29, second := 4\<rparr>)"
    by (simp add: example_strptime_def example_now_def)
  have cd: "example_now\<lparr>year := year example_now - 1,
              day := min (monthrange (year example_now - 1) (month example_now)) (day example_now)\<rparr>
            = example_now\<lparr>year := 2023, day := 29\<rparr>"
    by (simp add: example_now_def monthrange_def)
  note tw = time_window_filter [OF h, unfolded Let_def cd]
  let ?r1 = "\<lparr>lastKnownClientIdentifier = ''12:34:56:78:9a:bc'',
                lastSeenDate = ''Jun 29, 2023 01:02:03''\<rparr>"
  let ?r2 = "\<lparr>lastKnownClientIdentifier = ''aa:bb:01:02:03:04'',
                lastSeenDate = ''Jun 29, 2023 01:02:04''\<rparr>"
  have prem: "\<forall>record \<in> set [?r1, ?r2].
                lastKnownClientIdentifier record = ''12:34:56:78:9a:bc''
                \<longrightarrow> example_strptime (lastSeenDate record)
                      = Inr (example_now\<lparr>year := 2023, day := 29\<rparr>)"
    using p1 by simp
  have b: "lookup2 ?retMap ''All'' ''12:34:56:78:9a:bc'' = None"
    by (rule tw [THEN conjunct2, THEN conjunct1, THEN spec, THEN mp, OF prem])
  have mem: "?r2 \<in> set [?r1, ?r2]" by simp
  have pc: "length (lastKnownClientIdentifier ?r2) > 0
            \<and> example_strptime (lastSeenDate ?r2)
                = Inr (example_now\<lparr>year := 2023, day := 29,
                         second := second (example_now\<lparr>year := 2023, day := 29\<rparr>) + 1\<rparr>)"
    using p2 by (simp add: example_now_def)
  have c: "lookup2 ?retMap ''All'' ''aa:bb:01:02:03:04'' \<noteq> None"
    using tw [THEN conjunct2, THEN conjunct2, THEN bspec, OF mem, THEN mp, OF pc] by simp
  show ?thesis
    by (intro conjI) (rule h p1 p2 b c)+
qed

text \<open>
  C7: when the OUI table could not be loaded, so that \<^verbatim>\<open>readMapFromJsonFile\<close> gave
  the empty map, or when the table is empty, the function returns a block for every
  network whose records have a parsable date: no step of the classification raises.
  The block holds the categories \<^verbatim>\<open>Other\<close> and \<^verbatim>\<open>All\<close> and no other, and every
  retained address is stored under \<^verbatim>\<open>Other\<close> and under \<^verbatim>\<open>All\<close>.
\<close>

theorem empty_oui_table:
  assumes "OUI_MAP = readMapFromJsonFile (Inl e) \<or> OUI_MAP = []"
    and "minus_12_months now = Inr checkDate"
    and "\<forall>record \<in> set ipamRecords. length (lastKnownClientIdentifier record) > 0 \<longrightarrow>
           (\<exists>lastSeen. strptime (lastSeenDate record) = Inr lastSeen)"
  shows "\<exists>retMap.
           getInfoBlockForNetwork OUI_MAP strptime now (Inr (Some rangeRef)) (Inr ipamRecords)
             = Inr retMap
         \<and> (\<forall>ouiType. dict_contains ouiType retMap \<longleftrightarrow> ouiType = ''Other'' \<or> ouiType = ''All'')
         \<and> (\<forall>record \<in> set ipamRecords. retained strptime checkDate record \<longrightarrow>
               lookup2 retMap ''Other'' (lastKnownClientIdentifier record) \<noteq> None
               \<and> lookup2 retMap ''All'' (lastKnownClientIdentifier record)
                   = lookup2 retMap ''Other'' (lastKnownClientIdentifier record))
         \<and> (\<forall>macAddr. lookup2 retMap ''Other'' macAddr
                         = last_retained strptime checkDate ipamRecords macAddr
                    \<and> lookup2 retMap ''All'' macAddr
                         = last_retained strptime checkDate ipamRecords macAddr)"
proof -
  have e: "OUI_MAP = []" using assms(1) by (auto simp: readMapFromJsonFile_def)
  have fm: "first_match OUI_MAP m = ''Other''" for m
    by (simp add: e first_match_def keys_def)
  from getInfoBlockForNetwork_spec [OF assms(2,3), of OUI_MAP rangeRef] obtain retMap where
    g: "getInfoBlockForNetwork OUI_MAP strptime now (Inr (Some rangeRef)) (Inr ipamRecords)
          = Inr retMap"
    and l: "\<forall>t m. lookup2 retMap t m =
             (if t = first_match OUI_MAP m \<or> t = ''All''
              then last_retained strptime checkDate ipamRecords m else None)"
    and c: "\<forall>t. dict_contains t retMap =
                 (t = ''Other'' \<or> t = ''All''
                  \<or> (t \<in> set (keys OUI_MAP)
                      \<and> (\<exists>r \<in> set ipamRecords. retained strptime checkDate r)))"
    by blast
  have c': "\<forall>ouiType. dict_contains ouiType retMap \<longleftrightarrow> ouiType = ''Other'' \<or> ouiType = ''All''"
    using c by (simp add: e keys_def)
  have l': "\<forall>macAddr. lookup2 retMap ''Other'' macAddr
                         = last_retained strptime checkDate ipamRecords macAddr
                    \<and> lookup2 retMap ''All'' macAddr
                         = last_retained strptime checkDate ipamRecords macAddr"
    using l fm by simp
  have r: "\<forall>record \<in> set ipamRecords. retained strptime checkDate record \<longrightarrow>
               lookup2 retMap ''Other'' (lastKnownClientIdentifier record) \<noteq> None
               \<and> lookup2 retMap ''All'' (lastKnownClientIdentifier record)
                   = lookup2 retMap ''Other'' (lastKnownClientIdentifier record)"
    using l' by (auto simp: last_retained_None)
  from g c' r l' show ?thesis by blast
qed

theorem empty_oui_table_witness:
  "minus_12_months example_now = Inr example_checkDate
   \<and> getInfoBlockForNetwork (readMapFromJsonFile (Inl FileNotFoundError)) example_strptime
         example_now (Inr (Some ''Ranges/17'')) (Inr example_records)
       = Inr [(''Other'',
               [(''00:0c:29:AA:BB:CC'',
                 \<lparr>lastKnownClientIdentifier = ''00:0c:29:AA:BB:CC'',
                  lastSeenDate = ''May 01, 2024 10:00:00''\<rparr>),
                (''aa:bb:01:02:03:04'',
                 \<lparr>lastKnownClientIdentifier = ''aa:bb:01:02:03:04'',
                  lastSeenDate = ''Jun 29, 2023 01:02:04''\<rparr>),
                (''de:ad:be:ef:00:01'',
                 \<lparr>lastKnownClientIdentifier = ''de:ad:be:ef:00:01'',
                  lastSeenDate = ''May 01, 2024 10:00:00''\<rparr>)]),
              (''All'',
               [(''00:0c:29:AA:BB:CC'',
                 \<lparr>lastKnownClientIdentifier = ''00:0c:29:AA:BB:CC'',
                  lastSeenDate = ''May 01, 2024 10:00:00''\<rparr>),
                (''aa:bb:01:02:03:04'',
                 \<lparr>lastKnownClientIdentifier = ''aa:bb:01:02:03:04'',
                  lastSeenDate = ''Jun 29, 2023 01:02:04''\<rparr>),
                (''de:ad:be:ef:00:01'',
                 \<lparr>lastKnownClientIdentifier = ''de:ad:be:ef:00:01'',
                  lastSeenDate = ''May 01, 2024 10:00:00''\<rparr>)])]
   \<and> last_retained example_strptime example_checkDate example_records ''00:0c:29:AA:BB:CC''
       = Some \<lparr>lastKnownClientIdentifier = ''00:0c:29:AA:BB:CC'',
               lastSeenDate = ''May 01, 2024 10:00:00''\<rparr>"
proof -
  let ?oui = "readMapFromJsonFile (Inl FileNotFoundError) :: oui_map"
  let ?retMap = "[(''Other'',
               [(''00:0c:29:AA:BB:CC'',
                 \<lparr>lastKnownClientIdentifier = ''00:0c:29:AA:BB:CC'',
                  lastSeenDate = ''May 01, 2024 10:00:00''\<rparr>),
                (''aa:bb:01:02:03:04'',
                 \<lparr>lastKnownClientIdentifier = ''aa:bb:01:02:03:04'',
                  lastSeenDate = ''Jun 29, 2023 01:02:04''\<rparr>),
                (''de:ad:be:ef:00:01'',
                 \<lparr>lastKnownClientIdentifier = ''de:ad:be:ef:00:01'',
                  lastSeenDate = ''May 01, 2024 10:00:00''\<rparr>)]),
              (''All'',
               [(''00:0c:29:AA:BB:CC'',
                 \<lparr>lastKnownClientIdentifier = ''00:0c:29:AA:BB:CC'',
                  lastSeenDate = ''May 01, 2024 10:00:00''\<rparr>),
                (''aa:bb:01:02:03:04'',
                 \<lparr>lastKnownClientIdentifier = ''aa:bb:01:02:03:04'',
                  lastSeenDate = ''Jun 29, 2023 01:02:04''\<rparr>),
                (''de:ad:be:ef:00:01'',
                 \<lparr>lastKnownClientIdentifier = ''de:ad:be:ef:00:01'',
                  lastSeenDate = ''May 01, 2024 10:00:00''\<rparr>)])]"
  have h1: "?oui = readMapFromJsonFile (Inl FileNotFoundError) \<or> ?oui = []" by simp
  have h2: "minus_12_months example_now = Inr example_checkDate" by code_simp
  have h3: "\<forall>r \<in> set example_records. length (lastKnownClientIdentifier r) > 0 \<longrightarrow>
              (\<exists>lastSeen. example_strptime (lastSeenDate r) = Inr lastSeen)"
    by (simp add: example_records_def example_strptime_def)
  have ev: "getInfoBlockForNetwork ?oui example_strptime example_now
              (Inr (Some ''Ranges/17'')) (Inr example_records) = Inr ?retMap"
    by code_simp
  from empty_oui_table [OF h1 h2 h3, of "''Ranges/17''"] ev
  have "lookup2 ?retMap ''Other'' ''00:0c:29:AA:BB:CC''
          = last_retained example_strptime example_checkDate example_records ''00:0c:29:AA:BB:CC''"
    by auto
  then have lr: "last_retained example_strptime example_checkDate example_records
                   ''00:0c:29:AA:BB:CC''
               = Some \<lparr>lastKnownClientIdentifier = ''00:0c:29:AA:BB:CC'',
                       lastSeenDate = ''May 01, 2024 10:00:00''\<rparr>"
    by (simp add: lookup2_def)
  show ?thesis
    by (intro conjI) (rule h2 ev lr)+
qed

text \<open>
  C9: a block that \<^verbatim>\<open>getInfoBlockForNetwork\<close> returns always has the keys
  \<^verbatim>\<open>Other\<close> and \<^verbatim>\<open>All\<close>. When the range lookup fails the function returns early
  with both keys mapped to empty maps, and so it does when no record names an
  address and is recent enough.
\<close>

theorem Other_and_All_present:
  "(getInfoBlockForNetwork OUI_MAP strptime now rangeData respData = Inr retMap
      \<longrightarrow> dict_contains ''Other'' retMap \<and> dict_contains ''All'' retMap)
   \<and> (minus_12_months now = Inr checkDate
      \<longrightarrow> getInfoBlockForNetwork OUI_MAP strptime now (Inr None) respData
            = Inr [(''Other'', []), (''All'', [])])
   \<and> (minus_12_months now = Inr checkDate
       \<and> (\<forall>record \<in> set ipamRecords.
             length (lastKnownClientIdentifier record) = 0
             \<or> (\<exists>lastSeen. strptime (lastSeenDate record) = Inr lastSeen
                   \<and> \<not> datetime_gt lastSeen checkDate))
      \<longrightarrow> getInfoBlockForNetwork OUI_MAP strptime now (Inr (Some rangeRef)) (Inr ipamRecords)
            = Inr [(''Other'', []), (''All'', [])])"
proof -
  have a: "dict_contains ''Other'' retMap \<and> dict_contains ''All'' retMap"
    if g: "getInfoBlockForNetwork OUI_MAP strptime now rangeData respData = Inr retMap"
  proof (cases rangeData)
    case (Inl e)
    with g show ?thesis by (auto simp: getInfoBlockForNetwork_def Let_def split: sum.splits)
  next
    case (Inr found)
    show ?thesis
    proof (cases found)
      case None
      with Inr g have "retMap = [(''Other'', []), (''All'', [])]"
        by (auto simp: getInfoBlockForNetwork_def Let_def initial_block split: sum.splits)
      then show ?thesis by (simp add: dict_contains_def)
    next
      case (Some rangeRef)
      show ?thesis
      proof (cases respData)
        case (Inl e)
        with Some Inr g show ?thesis
          by (auto simp: getInfoBlockForNetwork_def Let_def split: sum.splits)
      next
        case r: (Inr rs)
        from getInfoBlockForNetwork_returned [OF g [unfolded Inr Some r]]
        show ?thesis by auto
      qed
    qed
  qed
  have b: "getInfoBlockForNetwork OUI_MAP strptime now (Inr None) respData
            = Inr [(''Other'', []), (''All'', [])]"
    if "minus_12_months now = Inr checkDate"
    using that by (simp add: getInfoBlockForNetwork_def Let_def initial_block)
  have c: "getInfoBlockForNetwork OUI_MAP strptime now (Inr (Some rangeRef)) (Inr ipamRecords)
            = Inr [(''Other'', []), (''All'', [])]"
    if "minus_12_months now = Inr checkDate"
      and "\<forall>record \<in> set ipamRecords.
             length (lastKnownClientIdentifier record) = 0
             \<or> (\<exists>lastSeen. strptime (lastSeenDate record) = Inr lastSeen
                   \<and> \<not> datetime_gt lastSeen checkDate)"
    using that(1) processRecords_none [OF that(2)]
    by (simp add: getInfoBlockForNetwork_records)
  from a b c show ?thesis by blast
qed

theorem Other_and_All_present_witness:
  "minus_12_months example_now = Inr example_checkDate
   \<and> getInfoBlockForNetwork example_OUI_MAP example_strptime example_now (Inr None)
         (Inl SystemExit)
       = Inr [(''Other'', []), (''All'', [])]
   \<and> getInfoBlockForNetwork example_OUI_MAP example_strptime example_now
         (Inr (Some ''Ranges/17''))
         (Inr [\<lparr>lastKnownClientIdentifier = ''12:34:56:78:9a:bc'',
                 lastSeenDate = ''Jun 29, 2023 01:02:03''\<rparr>,
               \<lparr>lastKnownClientIdentifier = '''', lastSeenDate = ''never''\<rparr>])
       = Inr [(''Other'', []), (''All'', [])]
   \<and> dict_contains ''Other'' ([(''Other'', []), (''All'', [])] :: info_block)
   \<and> dict_contains ''All'' ([(''Other'', []), (''All'', [])] :: info_block)"
proof -
  let ?rs = "[\<lparr>lastKnownClientIdentifier = ''12:34:56:78:9a:bc'',
                lastSeenDate = ''Jun 29, 2023 01:02:03''\<rparr>,
              \<lparr>lastKnownClientIdentifier = '''', lastSeenDate = ''never''\<rparr>]"
  have h2: "minus_12_months example_now = Inr example_checkDate" by code_simp
  have h3: "\<forall>r \<in> set ?rs.
              length (lastKnownClientIdentifier r) = 0
              \<or> (\<exists>lastSeen. example_strptime (lastSeenDate r) = Inr lastSeen
                    \<and> \<not> datetime_gt lastSeen example_checkDate)"
    by (simp add: example_strptime_def example_checkDate_def datetime_gt_def
                  datetime_fields_def)
  note t = Other_and_All_present
    [where OUI_MAP = example_OUI_MAP and strptime = example_strptime and now = example_now
       and checkDate = example_checkDate and ipamRecords = ?rs and rangeRef = "''Ranges/17''"
       and rangeData = "Inr (Some ''Ranges/17'')" and respData = "Inr ?rs"
       and retMap = "[(''Other'', []), (''All'', [])]"]
  note u = Other_and_All_present
    [where OUI_MAP = example_OUI_MAP and strptime = example_strptime and now = example_now
       and checkDate = example_checkDate and respData = "Inl SystemExit"]
  have early: "getInfoBlockForNetwork example_OUI_MAP example_strptime example_now (Inr None)
                 (Inl SystemExit) = Inr [(''Other'', []), (''All'', [])]"
    using u [THEN conjunct2, THEN conjunct1] h2 by simp
  have none: "getInfoBlockForNetwork example_OUI_MAP example_strptime example_now
                 (Inr (Some ''Ranges/17'')) (Inr ?rs) = Inr [(''Other'', []), (''All'', [])]"
    using t [THEN conjunct2, THEN conjunct2] h2 h3 by blast
  have both: "dict_contains ''Other'' ([(''Other'', []), (''All'', [])] :: info_block)
              \<and> dict_contains ''All'' ([(''Other'', []), (''All'', [])] :: info_block)"
    by (rule mp [OF t [THEN conjunct1] none])
  show ?thesis
    by (intro conjI) (rule h2 early none both [THEN conjunct1] both [THEN conjunct2])+
qed

subsection \<open>The claims on the report\<close>

text \<open>
  C1 says that the total printed for a category is the number of addresses
  classified into it, summed over the networks of the lab. The program does not do
  that: the line kept for a subnet starts with the subnet's name, and line 326 adds
  the length of the whole line. One lab with one network and one recent address,
  with no OUI table, is reported with 2 under \<^verbatim>\<open>Other\<close> and 2 under \<^verbatim>\<open>All\<close>, and
  with one duplicate although the address was met on a single network.
\<close>

theorem summary_counts_subnet_name:
  "main True (Inr [(''Lab1'', [''10.0.0.0/24''])]) (Inl FileNotFoundError) example_ddi
     = Inr [LabLine ''Lab1'', TotalLine ''Duplicates'' 1, TotalLine ''Other'' 2,
            TotalLine ''All'' 2]"
  by code_simp

text \<open>
  C2 says that an address met on one network only is not listed under
  \<^verbatim>\<open>Duplicates\<close>, and that an address met on two networks is listed with these two.
  The program does not do that: the loop of line 228 also walks the category
  \<^verbatim>\<open>All\<close>, so every address of a subnet is met twice there. An address of a single
  network is listed with that network twice, and an address of two networks with
  each of them twice.
\<close>

theorem every_address_a_duplicate:
  "networksLoop [] example_ddi [(''Lab1'', [''10.0.0.0/24''])] []
     = Inr [(''Lab1'',
             [(''10.0.0.0/24'',
               [(''Other'',
                 [(''aa:bb:cc:00:00:01'',
                   \<lparr>lastKnownClientIdentifier = ''aa:bb:cc:00:00:01'',
                    lastSeenDate = ''May 01, 2024 10:00:00''\<rparr>)]),
                (''All'',
                 [(''aa:bb:cc:00:00:01'',
                   \<lparr>lastKnownClientIdentifier = ''aa:bb:cc:00:00:01'',
                    lastSeenDate = ''May 01, 2024 10:00:00''\<rparr>)])])])]
   \<and> CreateCsvFiles
         [(''Lab1'',
             [(''10.0.0.0/24'',
               [(''Other'',
                 [(''aa:bb:cc:00:00:01'',
                   \<lparr>lastKnownClientIdentifier = ''aa:bb:cc:00:00:01'',
                    lastSeenDate = ''May 01, 2024 10:00:00''\<rparr>)]),
                (''All'',
                 [(''aa:bb:cc:00:00:01'',
                   \<lparr>lastKnownClientIdentifier = ''aa:bb:cc:00:00:01'',
                    lastSeenDate = ''May 01, 2024 10:00:00''\<rparr>)])])])]
     = Inr [(''Lab1'',
             [(''Duplicates'',
               [(''aa:bb:cc:00:00:01'', [''10.0.0.0/24'', ''10.0.0.0/24''])]),
              (''Other'',
               [(''10.0.0.0/24'', [''10.0.0.0/24'', ''aa:bb:cc:00:00:01''])]),
              (''All'',
               [(''10.0.0.0/24'', [''10.0.0.0/24'', ''aa:bb:cc:00:00:01''])])])]
   \<and> (case networksLoop [] example_ddi [(''Lab1'', [''10.0.0.0/24'', ''10.0.1.0/24''])] [] of
         Inl e \<Rightarrow> Inl e
       | Inr blockMap \<Rightarrow> CreateCsvFiles blockMap)
     = Inr [(''Lab1'',
             [(''Duplicates'',
               [(''aa:bb:cc:00:00:01'',
                 [''10.0.0.0/24'', ''10.0.0.0/24'', ''10.0.1.0/24'', ''10.0.1.0/24'']),
                (''aa:bb:cc:00:00:02'', [''10.0.1.0/24'', ''10.0.1.0/24''])]),
              (''Other'',
               [(''10.0.0.0/24'', [''10.0.0.0/24'', ''aa:bb:cc:00:00:01'']),
                (''10.0.1.0/24'',
                 [''10.0.1.0/24'', ''aa:bb:cc:00:00:01'', ''aa:bb:cc:00:00:02''])]),
              (''All'',
               [(''10.0.0.0/24'', [''10.0.0.0/24'', ''aa:bb:cc:00:00:01'']),
                (''10.0.1.0/24'',
                 [''10.0.1.0/24'', ''aa:bb:cc:00:00:01'', ''aa:bb:cc:00:00:02''])])])]"
  by code_simp

end
